theory Spec2Isabelle
  imports Complex_Main
begin

section \<open>Values shared with OpenTURNS\<close>

text \<open>
  The source file \<^verbatim>\<open>PCEsobol.py\<close> drives the OpenTURNS library. Python floats are
  read as reals. A raised Python exception is a value \<open>Exn c\<close>, \<open>c\<close> the name of its
  class; a computation that may raise returns \<open>exn + 'a\<close>, with \<open>Inl\<close> the exception.
\<close>

datatype exn = Exn string

abbreviation AssertionError :: exn where "AssertionError \<equiv> Exn ''AssertionError''"
abbreviation AttributeError :: exn where "AttributeError \<equiv> Exn ''AttributeError''"
abbreviation IndexError :: exn where "IndexError \<equiv> Exn ''IndexError''"
abbreviation KeyError :: exn where "KeyError \<equiv> Exn ''KeyError''"
abbreviation UnboundLocalError :: exn where "UnboundLocalError \<equiv> Exn ''UnboundLocalError''"
abbreviation ValueError :: exn where "ValueError \<equiv> Exn ''ValueError''"
abbreviation TypeError :: exn where "TypeError \<equiv> Exn ''TypeError''"
abbreviation InvalidArgumentException :: exn where
  "InvalidArgumentException \<equiv> Exn ''InvalidArgumentException''"

text \<open>
  An \<^verbatim>\<open>ot.Sample\<close>: its rows, its dimension (the number of columns, kept apart because
  \<^verbatim>\<open>ot.Sample(0, d)\<close> has no row and dimension \<open>d\<close>) and its description.
\<close>

record sample =
  rows :: "real list list"
  dimension :: nat
  description :: "string list"

definition getSize :: "sample \<Rightarrow> nat" where
  "getSize Z = length (rows Z)"

text \<open>
  \<^verbatim>\<open>ot.Sample(0, d)\<close>: no row, and the default description \<^verbatim>\<open>v0\<close>, \<^verbatim>\<open>v1\<close>, ... of
  the \<open>d\<close> columns, numbered in decimal.
\<close>

fun decimal :: "nat \<Rightarrow> string" where
  "decimal n =
     (if n < 10 then [''0123456789'' ! n]
      else decimal (n div 10) @ [''0123456789'' ! (n mod 10)])"

definition default_description :: "nat \<Rightarrow> string list" where
  "default_description d = map (\<lambda>i. ''v'' @ decimal i) [0..<d]"

definition Sample0 :: "nat \<Rightarrow> sample" where
  "Sample0 d = \<lparr>rows = [], dimension = d, description = default_description d\<rparr>"

text \<open>\<^verbatim>\<open>Z.add(point)\<close>: a point of another dimension is refused by the library.\<close>

definition add_point :: "sample \<Rightarrow> real list \<Rightarrow> exn + sample" where
  "add_point Z p =
     (if length p = dimension Z then Inr (Z\<lparr>rows := rows Z @ [p]\<rparr>)
      else Inl InvalidArgumentException)"

text \<open>\<^verbatim>\<open>Z[selection]\<close>: the rows of \<open>Z\<close> at the indices of the selection, in its order.\<close>

definition select :: "sample \<Rightarrow> nat list \<Rightarrow> exn + sample" where
  "select Z selection =
     (if \<forall>i \<in> set selection. i < getSize Z
      then Inr (Z\<lparr>rows := map (\<lambda>i. rows Z ! i) selection\<rparr>)
      else Inl IndexError)"

text \<open>\<^verbatim>\<open>Z[:, i]\<close>: the values of column \<open>i\<close>, one for each row.\<close>

definition column :: "sample \<Rightarrow> nat \<Rightarrow> exn + real list" where
  "column Z i =
     (if i < dimension Z then Inr (map (\<lambda>r. r ! i) (rows Z)) else Inl IndexError)"

text \<open>
  \<^verbatim>\<open>ot.Interval(lower, upper)\<close> with finite bounds, and \<^verbatim>\<open>contains(point)\<close>: every
  coordinate of the point lies between the two bounds of its dimension.
\<close>

datatype interval = Interval "real list" "real list"

fun contains :: "interval \<Rightarrow> real list \<Rightarrow> exn + bool" where
  "contains (Interval lower upper) p =
     (if length p \<noteq> length lower then Inl InvalidArgumentException
      else Inr (list_all (\<lambda>i. lower ! i \<le> p ! i \<and> p ! i \<le> upper ! i) [0..<length lower]))"

text \<open>The objects the source builds to configure a fit, as the data they are built from.\<close>

datatype polyfactory =
    Float0
  | StandardDistributionPolynomialFactory "real \<times> real"

datatype enumerate = HyperbolicAnisotropicEnumerateFunction nat real

datatype basis = OrthogonalProductPolynomialFactory "polyfactory list" enumerate

datatype adaptive =
    FixedStrategy basis nat
  | CleaningStrategy basis nat nat real

datatype 'res metamodel = getMetaModel 'res

datatype 'res sobol = FunctionalChaosSobolIndices 'res

text \<open>
  The OpenTURNS calls whose code is outside the repository are parameters of the model:
  \<^item> \<open>GenerateSelection size length\<close> draws indices, reading and advancing the state of
    the library's random generator;
  \<^item> \<open>getStrataCumulatedCardinal\<close> counts the basis terms up to a degree;
  \<^item> \<open>run\<close> is \<^verbatim>\<open>FunctionalChaosAlgorithm(X, Y, distribution, strategy).run()\<close>
    followed by \<^verbatim>\<open>getResult()\<close>;
  \<^item> \<open>getSobolIndex\<close>, \<open>getSobolTotalIndex\<close> and \<open>summary\<close> read a
    \<^verbatim>\<open>FunctionalChaosSobolIndices\<close>;
  \<^item> \<open>computeQuantile\<close> is the quantile of a one-column sample at a level;
  \<^item> \<open>computeMean\<close> and \<open>DrawSobolIndices\<close> serve the plot.
\<close>

record ('res, 'rng) openturns =
  GenerateSelection :: "nat \<Rightarrow> nat \<Rightarrow> 'rng \<Rightarrow> nat list \<times> 'rng"
  getStrataCumulatedCardinal :: "enumerate \<Rightarrow> nat \<Rightarrow> nat"
  run :: "sample \<Rightarrow> sample \<Rightarrow> (real \<times> real) list \<Rightarrow> adaptive \<Rightarrow> exn + 'res"
  getSobolIndex :: "'res sobol \<Rightarrow> nat \<Rightarrow> exn + real"
  getSobolTotalIndex :: "'res sobol \<Rightarrow> nat \<Rightarrow> exn + real"
  summary :: "'res sobol \<Rightarrow> string"
  computeQuantile :: "real list \<Rightarrow> real \<Rightarrow> exn + real"
  computeMean :: "sample \<Rightarrow> exn + real list"
  DrawSobolIndices ::
    "string list \<Rightarrow> real list \<Rightarrow> real list \<Rightarrow> interval \<Rightarrow> interval \<Rightarrow> exn + unit"

section \<open>multiBootstrap\<close>

text \<open>\<^verbatim>\<open>[Z[selection] for Z in data]\<close>: the first failing selection raises.\<close>

fun select_each :: "sample list \<Rightarrow> nat list \<Rightarrow> exn + sample list" where
  "select_each [] selection = Inr []"
| "select_each (Z # data) selection =
     (case select Z selection of
        Inl e \<Rightarrow> Inl e
      | Inr Zb \<Rightarrow>
          (case select_each data selection of
             Inl e \<Rightarrow> Inl e
           | Inr rest \<Rightarrow> Inr (Zb # rest)))"

definition multiBootstrap ::
  "('res, 'rng) openturns \<Rightarrow> sample list \<Rightarrow> 'rng \<Rightarrow> (exn + sample list) \<times> 'rng" where
  "multiBootstrap ot data g =
     (case data of
        [] \<Rightarrow> (Inl AssertionError, g)
      | Z0 # _ \<Rightarrow>
          (let size = getSize Z0;
               (selection, g') = GenerateSelection ot size size g
           in (select_each data selection, g')))"

section \<open>computeSobolIndicesConfidenceInterval\<close>

text \<open>
  The body of the loop \<^verbatim>\<open>for i in range(dim_input)\<close>, over the indices still to visit;
  the four lists of bounds are updated at index \<open>i\<close>.
\<close>

fun ci_loop ::
  "('res, 'rng) openturns \<Rightarrow> sample \<Rightarrow> sample \<Rightarrow> real \<Rightarrow> nat list \<Rightarrow>
   real list \<times> real list \<times> real list \<times> real list \<Rightarrow>
   exn + real list \<times> real list \<times> real list \<times> real list" where
  "ci_loop ot fo_sample to_sample alpha [] acc = Inr acc"
| "ci_loop ot fo_sample to_sample alpha (i # is) (fo_lb, fo_ub, to_lb, to_ub) =
     (case column fo_sample i of
        Inl e \<Rightarrow> Inl e
      | Inr fo_i \<Rightarrow>
     (case column to_sample i of
        Inl e \<Rightarrow> Inl e
      | Inr to_i \<Rightarrow>
     (let beta = (1 - alpha) / 2 in
     (case computeQuantile ot fo_i beta of
        Inl e \<Rightarrow> Inl e
      | Inr a \<Rightarrow>
     (case computeQuantile ot fo_i (1 - beta) of
        Inl e \<Rightarrow> Inl e
      | Inr b \<Rightarrow>
     (case computeQuantile ot to_i beta of
        Inl e \<Rightarrow> Inl e
      | Inr c \<Rightarrow>
     (case computeQuantile ot to_i (1 - beta) of
        Inl e \<Rightarrow> Inl e
      | Inr d \<Rightarrow>
          ci_loop ot fo_sample to_sample alpha is
            (fo_lb[i := a], fo_ub[i := b], to_lb[i := c], to_ub[i := d]))))))))"

text \<open>The keyword argument \<^verbatim>\<open>alpha=0.95\<close> is an optional argument.\<close>

definition computeSobolIndicesConfidenceInterval ::
  "('res, 'rng) openturns \<Rightarrow> sample \<Rightarrow> sample \<Rightarrow> real option \<Rightarrow> exn + interval \<times> interval" where
  "computeSobolIndicesConfidenceInterval ot fo_sample to_sample alpha_arg =
     (let alpha = (case alpha_arg of None \<Rightarrow> 95 / 100 | Some a \<Rightarrow> a);
          dim_input = dimension fo_sample;
          zeros = replicate dim_input 0
      in case ci_loop ot fo_sample to_sample alpha [0..<dim_input] (zeros, zeros, zeros, zeros) of
           Inl e \<Rightarrow> Inl e
         | Inr (fo_lb, fo_ub, to_lb, to_ub) \<Rightarrow>
             Inr (Interval fo_lb fo_ub, Interval to_lb to_ub))"

section \<open>The analysis object\<close>

text \<open>An argument of \<^verbatim>\<open>print\<close>: a string or a number.\<close>

datatype pyval = PStr string | PNat nat

text \<open>
  The four dictionaries that \<^verbatim>\<open>computeBootstrapChaosSobolIndices\<close> fills, one entry for
  each output.
\<close>

record bootstrap_dicts =
  FO :: "string \<rightharpoonup> sample"
  TO :: "string \<rightharpoonup> sample"
  FOI :: "string \<rightharpoonup> interval"
  TOI :: "string \<rightharpoonup> interval"

text \<open>
  The state the methods of \<^verbatim>\<open>OpenTurnsPCESobol\<close> read and write: the attributes of
  \<^verbatim>\<open>self\<close> they use (\<open>input_names\<close> and \<open>output_names\<close> are \<^verbatim>\<open>self.input\<close> and
  \<^verbatim>\<open>self.output\<close>; an attribute that no method has assigned yet is \<open>None\<close>), the
  lines printed so far (one list of arguments for each \<^verbatim>\<open>print\<close>), the state of the
  library's random generator and, as a trace, the arguments of every
  \<^verbatim>\<open>FunctionalChaosAlgorithm(...).run()\<close> made so far.
\<close>

record ('res, 'rng) pce =
  input_names :: "string list"
  output_names :: "string list"
  distribution :: "(real \<times> real) list"
  inputSample :: sample
  outputSample :: "string \<rightharpoonup> sample"
  chaosSI :: "(string \<rightharpoonup> 'res sobol) option"
  metamodel :: "(string \<rightharpoonup> 'res metamodel) option"
  S1 :: "(string \<rightharpoonup> real list) option"
  ST :: "(string \<rightharpoonup> real list) option"
  bootstrap :: "bootstrap_dicts option"
  stdout :: "pyval list list"
  rng :: 'rng
  runs :: "(sample \<times> sample \<times> (real \<times> real) list \<times> adaptive) list"

section \<open>The fit of one output: _computeChaosSensitivity\<close>

text \<open>
  \<^verbatim>\<open>for i in range(self.distribution.getDimension()): polyColl[i] = ...\<close>, an assignment
  past the end of \<open>polyColl\<close> raising IndexError.
\<close>

fun polyColl_loop ::
  "(real \<times> real) list \<Rightarrow> nat list \<Rightarrow> polyfactory list \<Rightarrow> exn + polyfactory list" where
  "polyColl_loop marginals [] polyColl = Inr polyColl"
| "polyColl_loop marginals (i # is) polyColl =
     (if i < length polyColl
      then polyColl_loop marginals is (polyColl[i := StandardDistributionPolynomialFactory (marginals ! i)])
      else Inl IndexError)"

text \<open>The branches on \<open>strategy\<close>; a third value leaves \<open>adaptiveStrategy\<close> unbound.\<close>

definition choose_strategy ::
  "('res, 'rng) openturns \<Rightarrow> basis \<Rightarrow> enumerate \<Rightarrow> string \<Rightarrow> ('res, 'rng) pce \<Rightarrow>
   adaptive option \<times> ('res, 'rng) pce" where
  "choose_strategy ot productBasis enumerateFunction strategy s =
     (if strategy = ''fixed'' then
        (let degree = 2;
             indexMax = getStrataCumulatedCardinal ot enumerateFunction degree;
             s' = s\<lparr>stdout := stdout s @ [[PStr ''indexMax'', PNat indexMax]]\<rparr>
         in (Some (FixedStrategy productBasis indexMax), s'))
      else if strategy = ''cleaning'' then
        (let maximumDimension = 200;
             maximumSize = 20;
             significanceFactor = 1 / 10 ^ 4
         in (Some (CleaningStrategy productBasis maximumDimension maximumSize significanceFactor), s))
      else (None, s))"

text \<open>\<^verbatim>\<open>[f(ii) for ii in range(n)]\<close>, the first raising call ending the comprehension.\<close>

fun index_list :: "(nat \<Rightarrow> exn + real) \<Rightarrow> nat list \<Rightarrow> exn + real list" where
  "index_list f [] = Inr []"
| "index_list f (ii # is) =
     (case f ii of
        Inl e \<Rightarrow> Inl e
      | Inr v \<Rightarrow> (case index_list f is of Inl e \<Rightarrow> Inl e | Inr vs \<Rightarrow> Inr (v # vs)))"

text \<open>
  The two comprehensions \<^verbatim>\<open>S1 = [...getSobolIndex(ii) ...]\<close> and
  \<^verbatim>\<open>ST = [...getSobolTotalIndex(ii) ...]\<close> over the \<open>d\<close> inputs.
\<close>

definition read_indices ::
  "('res, 'rng) openturns \<Rightarrow> nat \<Rightarrow> 'res sobol \<Rightarrow> exn + real list \<times> real list" where
  "read_indices ot d csi =
     (case index_list (getSobolIndex ot csi) [0..<d] of
        Inl e \<Rightarrow> Inl e
      | Inr S1_list \<Rightarrow>
     (case index_list (getSobolTotalIndex ot csi) [0..<d] of
        Inl e \<Rightarrow> Inl e
      | Inr ST_list \<Rightarrow> Inr (S1_list, ST_list)))"

text \<open>
  The end of \<^verbatim>\<open>_computeChaosSensitivity\<close>, from the result of the fit on: the
  metamodel and the \<^verbatim>\<open>FunctionalChaosSobolIndices\<close> of the result are stored under
  the name \<open>oo\<close> of the output, the summary is printed when \<open>verbose\<close>, and the
  indices of every input are read and returned.
\<close>

definition store_and_read ::
  "('res, 'rng) openturns \<Rightarrow> ('res, 'rng) pce \<Rightarrow> string \<Rightarrow> 'res \<Rightarrow> bool \<Rightarrow>
   (exn + real list \<times> real list) \<times> ('res, 'rng) pce" where
  "store_and_read ot s2 oo result verbose =
     (case metamodel s2 of
        None \<Rightarrow> (Inl AttributeError, s2)
      | Some mm \<Rightarrow>
     (let s3 = s2\<lparr>metamodel := Some (mm(oo \<mapsto> getMetaModel result))\<rparr>
      in
      case chaosSI s3 of
        None \<Rightarrow> (Inl AttributeError, s3)
      | Some si \<Rightarrow>
     (let csi = FunctionalChaosSobolIndices result;
          s4 = s3\<lparr>chaosSI := Some (si(oo \<mapsto> csi))\<rparr>;
          s5 = (if verbose then s4\<lparr>stdout := stdout s4 @ [[PStr (summary ot csi)]]\<rparr> else s4)
      in (read_indices ot (length (input_names s5)) csi, s5))))"

text \<open>
  \<^verbatim>\<open>ot.OrthogonalProductPolynomialFactory(polyColl, enumerateFunction)\<close>: the list must
  hold polynomial factories, and an entry that is still the \<^verbatim>\<open>0.0\<close> the list was created
  with is refused with TypeError.
\<close>

definition build_productBasis :: "polyfactory list \<Rightarrow> enumerate \<Rightarrow> exn + basis" where
  "build_productBasis polyColl enumerateFunction =
     (if Float0 \<in> set polyColl then Inl TypeError
      else Inr (OrthogonalProductPolynomialFactory polyColl enumerateFunction))"

text \<open>
  The source's \<^verbatim>\<open>_computeChaosSensitivity\<close>. The keyword arguments
  \<^verbatim>\<open>strategy='cleaning'\<close> and \<^verbatim>\<open>q=0.4\<close> are optional arguments. The result is the
  pair \<open>(S1, ST)\<close> or the exception raised, with the state as the call leaves it.
\<close>

definition u_computeChaosSensitivity ::
  "('res, 'rng) openturns \<Rightarrow> ('res, 'rng) pce \<Rightarrow> sample \<Rightarrow> sample \<Rightarrow> string option \<Rightarrow>
   real option \<Rightarrow> bool \<Rightarrow> (exn + real list \<times> real list) \<times> ('res, 'rng) pce" where
  "u_computeChaosSensitivity ot s inputSample_arg outputSample_arg strategy_arg q_arg verbose =
     (let strategy = (case strategy_arg of None \<Rightarrow> ''cleaning'' | Some x \<Rightarrow> x);
          q = (case q_arg of None \<Rightarrow> 4 / 10 | Some x \<Rightarrow> x)
      in
      case polyColl_loop (distribution s) [0..<length (distribution s)]
             (replicate (length (input_names s)) Float0) of
        Inl e \<Rightarrow> (Inl e, s)
      | Inr polyColl \<Rightarrow>
     (let enumerateFunction = HyperbolicAnisotropicEnumerateFunction (length (input_names s)) q
      in
      case build_productBasis polyColl enumerateFunction of
        Inl e \<Rightarrow> (Inl e, s)
      | Inr productBasis \<Rightarrow>
     (let (adaptiveStrategy, s1) = choose_strategy ot productBasis enumerateFunction strategy s
      in
      case description outputSample_arg of
        [] \<Rightarrow> (Inl IndexError, s1)
      | oo # _ \<Rightarrow>
     (case adaptiveStrategy of
        None \<Rightarrow> (Inl UnboundLocalError, s1)
      | Some strat \<Rightarrow>
     (let s2 = s1\<lparr>runs := runs s1 @ [(inputSample_arg, outputSample_arg, distribution s1, strat)]\<rparr>
      in
      case run ot inputSample_arg outputSample_arg (distribution s1) strat of
        Inl e \<Rightarrow> (Inl e, s2)
      | Inr result \<Rightarrow> store_and_read ot s2 oo result verbose)))))"

section \<open>The point estimates: computeChaosSensitivity\<close>

text \<open>The loop \<^verbatim>\<open>for oo in self.output\<close> of \<^verbatim>\<open>computeChaosSensitivity\<close>.\<close>

fun computeChaosSensitivity_loop ::
  "('res, 'rng) openturns \<Rightarrow> string \<Rightarrow> real \<Rightarrow> string list \<Rightarrow> ('res, 'rng) pce \<Rightarrow>
   (exn + unit) \<times> ('res, 'rng) pce" where
  "computeChaosSensitivity_loop ot strategy q [] s = (Inr (), s)"
| "computeChaosSensitivity_loop ot strategy q (oo # rest) s =
     (let s0 = s\<lparr>stdout := stdout s @
                 [[PStr (replicate 20 (CHR ''='')), PStr oo, PStr (replicate 20 (CHR ''='')),
                   PStr [CHR 0x0A]]]\<rparr>
      in
      case outputSample s0 oo of
        None \<Rightarrow> (Inl KeyError, s0)
      | Some Y \<Rightarrow>
     (case u_computeChaosSensitivity ot s0 (inputSample s0) Y (Some strategy) (Some q) False of
        (Inl e, s1) \<Rightarrow> (Inl e, s1)
      | (Inr (S1_oo, ST_oo), s1) \<Rightarrow>
     (case S1 s1 of
        None \<Rightarrow> (Inl AttributeError, s1)
      | Some d1 \<Rightarrow>
     (let s2 = s1\<lparr>S1 := Some (d1(oo \<mapsto> S1_oo))\<rparr>
      in
      case ST s2 of
        None \<Rightarrow> (Inl AttributeError, s2)
      | Some dT \<Rightarrow>
          computeChaosSensitivity_loop ot strategy q rest (s2\<lparr>ST := Some (dT(oo \<mapsto> ST_oo))\<rparr>)))))"

definition computeChaosSensitivity ::
  "('res, 'rng) openturns \<Rightarrow> ('res, 'rng) pce \<Rightarrow> string option \<Rightarrow> real option \<Rightarrow>
   (exn + unit) \<times> ('res, 'rng) pce" where
  "computeChaosSensitivity ot s strategy_arg q_arg =
     (let strategy = (case strategy_arg of None \<Rightarrow> ''cleaning'' | Some x \<Rightarrow> x);
          q = (case q_arg of None \<Rightarrow> 4 / 10 | Some x \<Rightarrow> x);
          s0 = s\<lparr>chaosSI := Some Map.empty, metamodel := Some Map.empty,
                 S1 := Some Map.empty, ST := Some Map.empty\<rparr>
      in computeChaosSensitivity_loop ot strategy q (output_names s0) s0)"

section \<open>The bootstrap: computeBootstrapChaosSobolIndices\<close>

text \<open>
  The loop \<^verbatim>\<open>for i in range(bootstrap_size)\<close>, over the number of iterations still to
  run; \<open>X_boot, Y_boot = multiBootstrap(X, Y)\<close> unpacks a list of two samples. The
  Python \<^verbatim>\<open>and\<close> evaluates its second operand only when the first is true.
\<close>

fun bootstrap_loop ::
  "('res, 'rng) openturns \<Rightarrow> nat \<Rightarrow> sample \<Rightarrow> sample \<Rightarrow> interval \<Rightarrow> sample \<times> sample \<Rightarrow>
   ('res, 'rng) pce \<Rightarrow> (exn + sample \<times> sample) \<times> ('res, 'rng) pce" where
  "bootstrap_loop ot 0 X Y unit_eps (fo_sample, to_sample) s = (Inr (fo_sample, to_sample), s)"
| "bootstrap_loop ot (Suc n) X Y unit_eps (fo_sample, to_sample) s =
     (case multiBootstrap ot [X, Y] (rng s) of
        (Inl e, g) \<Rightarrow> (Inl e, s\<lparr>rng := g\<rparr>)
      | (Inr [X_boot, Y_boot], g) \<Rightarrow>
         (case u_computeChaosSensitivity ot (s\<lparr>rng := g\<rparr>) X_boot Y_boot None None False of
            (Inl e, s') \<Rightarrow> (Inl e, s')
          | (Inr (first_order, total_order), s') \<Rightarrow>
             (case contains unit_eps first_order of
                Inl e \<Rightarrow> (Inl e, s')
              | Inr False \<Rightarrow> bootstrap_loop ot n X Y unit_eps (fo_sample, to_sample) s'
              | Inr True \<Rightarrow>
                 (case contains unit_eps total_order of
                    Inl e \<Rightarrow> (Inl e, s')
                  | Inr False \<Rightarrow> bootstrap_loop ot n X Y unit_eps (fo_sample, to_sample) s'
                  | Inr True \<Rightarrow>
                     (case add_point fo_sample first_order of
                        Inl e \<Rightarrow> (Inl e, s')
                      | Inr fo_sample' \<Rightarrow>
                         (case add_point to_sample total_order of
                            Inl e \<Rightarrow> (Inl e, s')
                          | Inr to_sample' \<Rightarrow>
                              bootstrap_loop ot n X Y unit_eps (fo_sample', to_sample') s')))))
      | (Inr _, g) \<Rightarrow> (Inl ValueError, s\<lparr>rng := g\<rparr>))"

text \<open>The body of the loop \<^verbatim>\<open>for oo in self.output\<close>, for one output \<open>oo\<close>.\<close>

definition bootstrap_output ::
  "('res, 'rng) openturns \<Rightarrow> int \<Rightarrow> bool \<Rightarrow> bool \<Rightarrow> sample \<Rightarrow> nat \<Rightarrow> string \<Rightarrow>
   bootstrap_dicts \<Rightarrow> ('res, 'rng) pce \<Rightarrow> (exn + bootstrap_dicts) \<times> ('res, 'rng) pce" where
  "bootstrap_output ot bootstrap_size verbose plot X dim_input oo dicts s =
     (let s0 = (if verbose
                then s\<lparr>stdout := stdout s @
                       [[PStr (replicate 20 (CHR ''*'')), PStr oo, PStr (replicate 20 (CHR ''*'')),
                         PStr [CHR 0x0A]]]\<rparr>
                else s)
      in
      case outputSample s0 oo of
        None \<Rightarrow> (Inl KeyError, s0)
      | Some Y \<Rightarrow>
     (let fo_sample = Sample0 dim_input;
          to_sample = Sample0 dim_input;
          unit_eps = Interval (replicate dim_input (1 / 10 ^ 9)) (replicate dim_input (1 - 1 / 10 ^ 9))
      in
      case bootstrap_loop ot (nat bootstrap_size) X Y unit_eps (fo_sample, to_sample) s0 of
        (Inl e, s1) \<Rightarrow> (Inl e, s1)
      | (Inr (fo_sample', to_sample'), s1) \<Rightarrow>
     (case computeSobolIndicesConfidenceInterval ot fo_sample' to_sample' None of
        Inl e \<Rightarrow> (Inl e, s1)
      | Inr (fo_interval, to_interval) \<Rightarrow>
     (let dicts' = \<lparr>FO = (FO dicts)(oo \<mapsto> fo_sample'), TO = (TO dicts)(oo \<mapsto> to_sample'),
                    FOI = (FOI dicts)(oo \<mapsto> fo_interval), TOI = (TOI dicts)(oo \<mapsto> to_interval)\<rparr>
      in
      if plot then
        (case computeMean ot fo_sample' of
           Inl e \<Rightarrow> (Inl e, s1)
         | Inr fo_mean \<Rightarrow>
        (case computeMean ot to_sample' of
           Inl e \<Rightarrow> (Inl e, s1)
         | Inr to_mean \<Rightarrow>
        (case DrawSobolIndices ot (description (inputSample s1)) fo_mean to_mean
                fo_interval to_interval of
           Inl e \<Rightarrow> (Inl e, s1)
         | Inr _ \<Rightarrow> (Inr dicts', s1))))
      else (Inr dicts', s1)))))"

fun bootstrap_outputs ::
  "('res, 'rng) openturns \<Rightarrow> int \<Rightarrow> bool \<Rightarrow> bool \<Rightarrow> sample \<Rightarrow> nat \<Rightarrow> string list \<Rightarrow>
   bootstrap_dicts \<Rightarrow> ('res, 'rng) pce \<Rightarrow> (exn + bootstrap_dicts) \<times> ('res, 'rng) pce" where
  "bootstrap_outputs ot bootstrap_size verbose plot X dim_input [] dicts s = (Inr dicts, s)"
| "bootstrap_outputs ot bootstrap_size verbose plot X dim_input (oo # rest) dicts s =
     (case bootstrap_output ot bootstrap_size verbose plot X dim_input oo dicts s of
        (Inl e, s') \<Rightarrow> (Inl e, s')
      | (Inr dicts', s') \<Rightarrow>
          bootstrap_outputs ot bootstrap_size verbose plot X dim_input rest dicts' s')"

text \<open>The keyword arguments \<^verbatim>\<open>verbose=True\<close> and \<^verbatim>\<open>plot=True\<close> are optional.\<close>

definition computeBootstrapChaosSobolIndices ::
  "('res, 'rng) openturns \<Rightarrow> ('res, 'rng) pce \<Rightarrow> int \<Rightarrow> bool option \<Rightarrow> bool option \<Rightarrow>
   (exn + unit) \<times> ('res, 'rng) pce" where
  "computeBootstrapChaosSobolIndices ot s bootstrap_size verbose_arg plot_arg =
     (let verbose = (case verbose_arg of None \<Rightarrow> True | Some b \<Rightarrow> b);
          plot = (case plot_arg of None \<Rightarrow> True | Some b \<Rightarrow> b);
          X = inputSample s;
          dim_input = dimension X
      in
      case bootstrap_outputs ot bootstrap_size verbose plot X dim_input (output_names s)
             \<lparr>FO = Map.empty, TO = Map.empty, FOI = Map.empty, TOI = Map.empty\<rparr> s of
        (Inl e, s') \<Rightarrow> (Inl e, s')
      | (Inr dicts, s') \<Rightarrow> (Inr (), s'\<lparr>bootstrap := Some dicts\<rparr>))"

section \<open>Notions used in the statements\<close>

text \<open>The library's quantile at level \<open>p\<close> of the values of column \<open>i\<close> of a sample.\<close>

definition quantile_of ::
  "('res, 'rng) openturns \<Rightarrow> sample \<Rightarrow> nat \<Rightarrow> real \<Rightarrow> exn + real" where
  "quantile_of ot Z i p = computeQuantile ot (map (\<lambda>r. r ! i) (rows Z)) p"

text \<open>
  The list of polynomial factories from which \<^verbatim>\<open>_computeChaosSensitivity\<close> builds its
  basis, for the marginals of the distribution and the names of the inputs, or the
  exception raised on the way: IndexError when there are more marginals than names,
  TypeError when there are fewer.
\<close>

definition polyColl_of :: "(real \<times> real) list \<Rightarrow> string list \<Rightarrow> exn + polyfactory list" where
  "polyColl_of marginals names =
     (case polyColl_loop marginals [0..<length marginals] (replicate (length names) Float0) of
        Inl e \<Rightarrow> Inl e
      | Inr polyColl \<Rightarrow> if Float0 \<in> set polyColl then Inl TypeError else Inr polyColl)"

text \<open>
  The strategy built by the default arguments of \<^verbatim>\<open>_computeChaosSensitivity\<close> for \<open>d\<close>
  inputs: the cleaning strategy with 200, 20 and 1e-4 on a basis enumerated with
  \<open>q = 0.4\<close>.
\<close>

fun default_cleaning :: "nat \<Rightarrow> adaptive \<Rightarrow> bool" where
  "default_cleaning d
     (CleaningStrategy (OrthogonalProductPolynomialFactory polyColl
        (HyperbolicAnisotropicEnumerateFunction d' q)) maximumDimension maximumSize
        significanceFactor) =
     (d' = d \<and> q = 4 / 10 \<and> maximumDimension = 200 \<and> maximumSize = 20 \<and>
      significanceFactor = 1 / 10 ^ 4)"
| "default_cleaning d (FixedStrategy productBasis indexMax) = False"

text \<open>
  A logged fit whose two samples are the rows of \<open>X\<close> and of \<open>Y\<close> at one selection
  drawn by the library for the size of \<open>X\<close>.
\<close>

definition drawn_jointly ::
  "('res, 'rng) openturns \<Rightarrow> sample \<Rightarrow> sample \<Rightarrow>
   sample \<times> sample \<times> (real \<times> real) list \<times> adaptive \<Rightarrow> bool" where
  "drawn_jointly ot X Y call =
     (\<exists>selection g g'.
        GenerateSelection ot (getSize X) (getSize X) g = (selection, g') \<and>
        select X selection = Inr (fst call) \<and> select Y selection = Inr (fst (snd call)))"

text \<open>A point of \<open>d\<close> coordinates, each inside \<open>[1e-9, 1 - 1e-9]\<close>.\<close>

definition inside_unit_eps :: "nat \<Rightarrow> real list \<Rightarrow> bool" where
  "inside_unit_eps d p =
     (length p = d \<and> list_all (\<lambda>x. 1 / 10 ^ 9 \<le> x \<and> x \<le> 1 - 1 / 10 ^ 9) p)"

text \<open>The interval \<^verbatim>\<open>unit_eps\<close> of the bootstrap for \<open>d\<close> inputs.\<close>

definition unit_eps_of :: "nat \<Rightarrow> interval" where
  "unit_eps_of d = Interval (replicate d (1 / 10 ^ 9)) (replicate d (1 - 1 / 10 ^ 9))"

text \<open>
  The outcome of a logged fit: the exception of the library's \<open>run\<close> on the logged
  arguments, or what reading the indices of its result gives.
\<close>

definition fit_outcome ::
  "('res, 'rng) openturns \<Rightarrow> nat \<Rightarrow> sample \<times> sample \<times> (real \<times> real) list \<times> adaptive \<Rightarrow>
   exn + real list \<times> real list" where
  "fit_outcome ot d call =
     (case call of (X, Y, marginals, strat) \<Rightarrow>
        (case run ot X Y marginals strat of
           Inl e \<Rightarrow> Inl e
         | Inr result \<Rightarrow> read_indices ot d (FunctionalChaosSobolIndices result)))"

text \<open>The state after the line that \<^verbatim>\<open>verbose\<close> prints for an output of the bootstrap.\<close>

definition banner :: "bool \<Rightarrow> string \<Rightarrow> ('res, 'rng) pce \<Rightarrow> ('res, 'rng) pce" where
  "banner verbose oo s =
     (if verbose
      then s\<lparr>stdout := stdout s @
             [[PStr (replicate 20 (CHR ''*'')), PStr oo, PStr (replicate 20 (CHR ''*'')),
               PStr [CHR 0x0A]]]\<rparr>
      else s)"

section \<open>A small instance of the library and of the analysis object\<close>

text \<open>
  A stand-in for the library, on which the definitions can be evaluated: the random
  generator is a counter and a selection a rotation of the rows by it; the fitted result
  is the first output value of the sample and every Sobol index read from it is that
  value; the quantile of a non-empty column is its least value below level 1/2 and its
  greatest value from there on, and the quantile and the mean of an empty sample raise.
\<close>

definition demo_selection :: "nat \<Rightarrow> nat \<Rightarrow> nat \<Rightarrow> nat list \<times> nat" where
  "demo_selection n len g = (map (\<lambda>k. (g + k) mod len) [0..<n], Suc g)"

definition demo_run ::
  "sample \<Rightarrow> sample \<Rightarrow> (real \<times> real) list \<Rightarrow> adaptive \<Rightarrow> exn + real" where
  "demo_run X Y marginals strat =
     (case rows Y of
        (y # _) # _ \<Rightarrow> Inr y
      | _ \<Rightarrow> Inl InvalidArgumentException)"

definition demo_index :: "real sobol \<Rightarrow> nat \<Rightarrow> exn + real" where
  "demo_index si i = (case si of FunctionalChaosSobolIndices y \<Rightarrow> Inr y)"

definition demo_quantile :: "real list \<Rightarrow> real \<Rightarrow> exn + real" where
  "demo_quantile xs p =
     (case xs of
        [] \<Rightarrow> Inl (Exn ''InternalException'')
      | x # ys \<Rightarrow> Inr (if p < 1 / 2 then fold min ys x else fold max ys x))"

definition demo_mean :: "sample \<Rightarrow> exn + real list" where
  "demo_mean Z =
     (case rows Z of
        [] \<Rightarrow> Inl (Exn ''InternalException'')
      | _ # _ \<Rightarrow>
          Inr (map (\<lambda>i. sum_list (map (\<lambda>r. r ! i) (rows Z)) / real (length (rows Z)))
                 [0..<dimension Z]))"

definition demo_cardinal :: "enumerate \<Rightarrow> nat \<Rightarrow> nat" where
  "demo_cardinal e degree =
     (case e of HyperbolicAnisotropicEnumerateFunction d q \<Rightarrow> (d + degree) choose degree)"

definition demo_ot :: "(real, nat) openturns" where
  "demo_ot =
     \<lparr>GenerateSelection = demo_selection,
      getStrataCumulatedCardinal = demo_cardinal,
      run = demo_run,
      getSobolIndex = demo_index,
      getSobolTotalIndex = demo_index,
      summary = (\<lambda>si. ''summary''),
      computeQuantile = demo_quantile,
      computeMean = demo_mean,
      DrawSobolIndices = (\<lambda>names fo_mean to_mean fo_interval to_interval. Inr ())\<rparr>"

text \<open>
  An analysis object with one input \<open>x\<close> and one output \<open>y\<close>, three rows, on which
  \<^verbatim>\<open>computeChaosSensitivity\<close> has not run yet, and the object after it has created the
  dictionaries.
\<close>

definition demo_X :: sample where
  "demo_X = \<lparr>rows = [[1 / 10], [2 / 10], [3 / 10]], dimension = 1, description = [''x'']\<rparr>"

definition demo_Y :: sample where
  "demo_Y = \<lparr>rows = [[5 / 10], [2], [3 / 10]], dimension = 1, description = [''y'']\<rparr>"

definition demo_new :: "(real, nat) pce" where
  "demo_new =
     \<lparr>input_names = [''x''], output_names = [''y''], distribution = [(0, 1)],
      inputSample = demo_X, outputSample = [''y'' \<mapsto> demo_Y],
      chaosSI = None, metamodel = None, S1 = None, ST = None, bootstrap = None,
      stdout = [], rng = 0, runs = []\<rparr>"

definition demo_self :: "(real, nat) pce" where
  "demo_self =
     demo_new\<lparr>chaosSI := Some Map.empty, metamodel := Some Map.empty,
              S1 := Some Map.empty, ST := Some Map.empty\<rparr>"

text \<open>
  Two iterations of the bootstrap on this object: the first resample is the data as they
  are, its indices are 0.5 and the replicate is retained; the second starts at the second
  row, its indices are 2 and the replicate is discarded. \<open>demo_after\<close> is the object
  after the two iterations, \<open>demo_retained\<close> the sample of retained indices.
\<close>

definition demo_cleaning :: adaptive where
  "demo_cleaning =
     CleaningStrategy
       (OrthogonalProductPolynomialFactory [StandardDistributionPolynomialFactory (0, 1)]
          (HyperbolicAnisotropicEnumerateFunction 1 (4 / 10)))
       200 20 (1 / 10 ^ 4)"

definition demo_X2 :: sample where
  "demo_X2 = \<lparr>rows = [[2 / 10], [3 / 10], [1 / 10]], dimension = 1, description = [''x'']\<rparr>"

definition demo_Y2 :: sample where
  "demo_Y2 = \<lparr>rows = [[2], [3 / 10], [5 / 10]], dimension = 1, description = [''y'']\<rparr>"

definition demo_after :: "(real, nat) pce" where
  "demo_after =
     demo_self\<lparr>chaosSI := Some [''y'' \<mapsto> FunctionalChaosSobolIndices 2],
               metamodel := Some [''y'' \<mapsto> getMetaModel 2],
               rng := 2,
               runs := [(demo_X, demo_Y, [(0, 1)], demo_cleaning),
                        (demo_X2, demo_Y2, [(0, 1)], demo_cleaning)]\<rparr>"

definition demo_retained :: sample where
  "demo_retained = \<lparr>rows = [[5 / 10]], dimension = 1, description = [''v0'']\<rparr>"





text \<open>
  Two more stand-ins for the library, whose fitted result is the variance of the output
  values and whose Sobol indices are 1 when that variance is positive: at variance zero
  \<open>zero_ot\<close> returns the index 0 and \<open>raising_ot\<close> raises an exception of the
  library's own. \<open>demo_Y_const\<close> is a constant response.
\<close>

definition demo_variance :: "sample \<Rightarrow> real" where
  "demo_variance Y =
     (let ys = map hd (rows Y);
          m = sum_list ys / real (length ys)
      in sum_list (map (\<lambda>y. (y - m) ^ 2) ys) / real (length ys))"

definition zero_index :: "real sobol \<Rightarrow> nat \<Rightarrow> exn + real" where
  "zero_index si i =
     (case si of FunctionalChaosSobolIndices v \<Rightarrow> Inr (if v = 0 then 0 else 1))"

definition raising_index :: "real sobol \<Rightarrow> nat \<Rightarrow> exn + real" where
  "raising_index si i =
     (case si of FunctionalChaosSobolIndices v \<Rightarrow>
        if v = 0 then Inl InvalidArgumentException else Inr 1)"

definition zero_ot :: "(real, nat) openturns" where
  "zero_ot =
     demo_ot\<lparr>run := (\<lambda>X Y marginals strat. Inr (demo_variance Y)),
             getSobolIndex := zero_index, getSobolTotalIndex := zero_index\<rparr>"

definition raising_ot :: "(real, nat) openturns" where
  "raising_ot =
     demo_ot\<lparr>run := (\<lambda>X Y marginals strat. Inr (demo_variance Y)),
             getSobolIndex := raising_index, getSobolTotalIndex := raising_index\<rparr>"

definition demo_Y_const :: sample where
  "demo_Y_const = \<lparr>rows = [[3], [3], [3]], dimension = 1, description = [''y'']\<rparr>"

text \<open>
  A response whose bootstrap replicates are all discarded on \<open>demo_ot\<close>, and the
  object that holds it.
\<close>

definition demo_Y_out :: sample where
  "demo_Y_out = \<lparr>rows = [[2], [3], [4]], dimension = 1, description = [''y'']\<rparr>"

definition demo_self_out :: "(real, nat) pce" where
  "demo_self_out = demo_self\<lparr>outputSample := [''y'' \<mapsto> demo_Y_out]\<rparr>"

text \<open>
  The point estimates on the new object with the fixed strategy and \<open>q = 1\<close>:
  \<open>demo_point\<close> is the object they leave, with one fit of three basis terms.
\<close>

definition demo_fixed :: adaptive where
  "demo_fixed =
     FixedStrategy
       (OrthogonalProductPolynomialFactory [StandardDistributionPolynomialFactory (0, 1)]
          (HyperbolicAnisotropicEnumerateFunction 1 1))
       3"

definition demo_point :: "(real, nat) pce" where
  "demo_point =
     demo_new\<lparr>chaosSI := Some [''y'' \<mapsto> FunctionalChaosSobolIndices (5 / 10)],
              metamodel := Some [''y'' \<mapsto> getMetaModel (5 / 10)],
              S1 := Some [''y'' \<mapsto> [5 / 10]], ST := Some [''y'' \<mapsto> [5 / 10]],
              stdout := [[PStr (replicate 20 (CHR ''='')), PStr ''y'',
                          PStr (replicate 20 (CHR ''='')), PStr [CHR 0x0A]],
                         [PStr ''indexMax'', PNat 3]],
              runs := [(demo_X, demo_Y, [(0, 1)], demo_fixed)]\<rparr>"

section \<open>How a fit and an iteration of the bootstrap proceed\<close>

declare decimal.simps [simp del]

lemma default_description_1: "default_description (Suc 0) = [''v0'']"
  by (simp add: default_description_def decimal.simps)

lemma fit_def2:
  "u_computeChaosSensitivity ot s X Y strategy_arg q_arg verbose =
     (let strategy = (case strategy_arg of None \<Rightarrow> ''cleaning'' | Some x \<Rightarrow> x);
          q = (case q_arg of None \<Rightarrow> 4 / 10 | Some x \<Rightarrow> x)
      in
      case polyColl_of (distribution s) (input_names s) of
        Inl e \<Rightarrow> (Inl e, s)
      | Inr polyColl \<Rightarrow>
     (let enumerateFunction = HyperbolicAnisotropicEnumerateFunction (length (input_names s)) q;
          productBasis = OrthogonalProductPolynomialFactory polyColl enumerateFunction;
          (adaptiveStrategy, s1) = choose_strategy ot productBasis enumerateFunction strategy s
      in
      case description Y of
        [] \<Rightarrow> (Inl IndexError, s1)
      | oo # _ \<Rightarrow>
     (case adaptiveStrategy of
        None \<Rightarrow> (Inl UnboundLocalError, s1)
      | Some strat \<Rightarrow>
     (let s2 = s1\<lparr>runs := runs s1 @ [(X, Y, distribution s1, strat)]\<rparr>
      in
      case run ot X Y (distribution s1) strat of
        Inl e \<Rightarrow> (Inl e, s2)
      | Inr result \<Rightarrow> store_and_read ot s2 oo result verbose))))"
  unfolding u_computeChaosSensitivity_def polyColl_of_def build_productBasis_def Let_def
  by (simp split: sum.split)

lemma polyColl_loop_fill:
  "k \<le> length marginals \<Longrightarrow> length marginals \<le> length pc \<Longrightarrow>
   polyColl_loop marginals [k..<length marginals] pc =
     Inr (take k pc @ map StandardDistributionPolynomialFactory (drop k marginals) @
          drop (length marginals) pc)"
proof (induction "length marginals - k" arbitrary: k pc)
  case 0
  then show ?case by simp
next
  case (Suc x)
  then have k: "k < length marginals" by simp
  let ?v = "StandardDistributionPolynomialFactory (marginals ! k)"
  from k have upt: "[k..<length marginals] = k # [Suc k..<length marginals]"
    by (simp add: upt_conv_Cons)
  from Suc.hyps(2) k have x: "x = length marginals - Suc k" by simp
  from k Suc.prems(2) have "polyColl_loop marginals [Suc k..<length marginals] (pc[k := ?v]) =
      Inr (take (Suc k) (pc[k := ?v]) @
        map StandardDistributionPolynomialFactory (drop (Suc k) marginals) @
        drop (length marginals) (pc[k := ?v]))"
    by (intro Suc.hyps(1) [OF x]) simp_all
  moreover from k Suc.prems(2) have "take (Suc k) (pc[k := ?v]) = take k pc @ [?v]"
    by (simp add: take_Suc_conv_app_nth)
  moreover from k have "drop (length marginals) (pc[k := ?v]) = drop (length marginals) pc"
    by simp
  moreover from k have "drop k marginals = marginals ! k # drop (Suc k) marginals"
    by (simp add: Cons_nth_drop_Suc)
  ultimately show ?case using k Suc.prems(2) by (simp add: upt)
qed


lemma polyColl_of_fewer:
  assumes "length marginals < length names"
  shows "polyColl_of marginals names = Inl TypeError"
proof -
  have "polyColl_loop marginals [0..<length marginals] (replicate (length names) Float0) =
      Inr (map StandardDistributionPolynomialFactory marginals @
           replicate (length names - length marginals) Float0)"
    using polyColl_loop_fill [of 0 marginals "replicate (length names) Float0"] assms by simp
  with assms show ?thesis by (simp add: polyColl_of_def)
qed

lemma fit_fewer_marginals:
  assumes "length (distribution s) < length (input_names s)"
  shows "u_computeChaosSensitivity ot s X Y strategy_arg q_arg verbose = (Inl TypeError, s)"
  by (simp add: fit_def2 polyColl_of_fewer [OF assms])

lemma choose_strategy_frame:
  "choose_strategy ot pb ef strategy s = (A, s1) \<Longrightarrow>
   input_names s1 = input_names s \<and> output_names s1 = output_names s \<and>
   distribution s1 = distribution s \<and> inputSample s1 = inputSample s \<and>
   outputSample s1 = outputSample s \<and> chaosSI s1 = chaosSI s \<and> metamodel s1 = metamodel s \<and>
   S1 s1 = S1 s \<and> ST s1 = ST s \<and> bootstrap s1 = bootstrap s \<and> rng s1 = rng s \<and>
   runs s1 = runs s"
  by (auto simp: choose_strategy_def Let_def split: if_splits)

lemma store_and_read_frame:
  "store_and_read ot s oo result verbose = (r, s') \<Longrightarrow>
   input_names s' = input_names s \<and> output_names s' = output_names s \<and>
   distribution s' = distribution s \<and> inputSample s' = inputSample s \<and>
   outputSample s' = outputSample s \<and> S1 s' = S1 s \<and> ST s' = ST s \<and>
   bootstrap s' = bootstrap s \<and> rng s' = rng s \<and> runs s' = runs s"
  by (auto simp: store_and_read_def Let_def split: option.splits if_splits)

lemma store_and_read_Some:
  "metamodel s = Some mm \<Longrightarrow> chaosSI s = Some si \<Longrightarrow>
   store_and_read ot s oo result verbose =
     (read_indices ot (length (input_names s)) (FunctionalChaosSobolIndices result),
      s\<lparr>metamodel := Some (mm(oo \<mapsto> getMetaModel result)),
        chaosSI := Some (si(oo \<mapsto> FunctionalChaosSobolIndices result)),
        stdout := (if verbose
                   then stdout s @ [[PStr (summary ot (FunctionalChaosSobolIndices result))]]
                   else stdout s)\<rparr>)"
  by (simp add: store_and_read_def Let_def)

lemma store_and_read_Inr:
  "store_and_read ot s oo result verbose = (Inr p, s') \<Longrightarrow>
   metamodel s \<noteq> None \<and> chaosSI s \<noteq> None \<and>
   read_indices ot (length (input_names s)) (FunctionalChaosSobolIndices result) = Inr p"
  by (auto simp: store_and_read_def Let_def split: option.splits if_splits)

lemma fit_frame:
  "u_computeChaosSensitivity ot s X Y strategy q verbose = (r, s') \<Longrightarrow>
   input_names s' = input_names s \<and> output_names s' = output_names s \<and>
   distribution s' = distribution s \<and> inputSample s' = inputSample s \<and>
   outputSample s' = outputSample s \<and> S1 s' = S1 s \<and> ST s' = ST s \<and>
   bootstrap s' = bootstrap s \<and> rng s' = rng s"
  unfolding fit_def2 Let_def
  by (auto split: sum.splits list.splits option.splits prod.splits
        dest!: choose_strategy_frame store_and_read_frame)

lemma polyColl_loop_ok:
  "\<forall>i \<in> set is. i < length polyColl \<Longrightarrow>
   \<exists>pc. polyColl_loop marginals is polyColl = Inr pc \<and> length pc = length polyColl"
proof (induction "is" arbitrary: polyColl)
  case Nil
  then show ?case by simp
next
  case (Cons i "is")
  let ?pc = "polyColl[i := StandardDistributionPolynomialFactory (marginals ! i)]"
  from Cons.prems have "\<forall>j \<in> set is. j < length ?pc" by simp
  from Cons.IH [OF this] obtain pc where
    "polyColl_loop marginals is ?pc = Inr pc" "length pc = length ?pc" by blast
  with Cons.prems show ?case by simp
qed

lemma choose_strategy_cleaning:
  "choose_strategy ot pb ef ''cleaning'' s = (Some (CleaningStrategy pb 200 20 (1 / 10 ^ 4)), s)"
  by (simp add: choose_strategy_def)


lemma fit_run:
  assumes "polyColl_of (distribution s) (input_names s) = Inr pc"
    and "ef = HyperbolicAnisotropicEnumerateFunction (length (input_names s))
               (case q_arg of None \<Rightarrow> 4 / 10 | Some x \<Rightarrow> x)"
    and "choose_strategy ot (OrthogonalProductPolynomialFactory pc ef) ef
           (case strategy_arg of None \<Rightarrow> ''cleaning'' | Some x \<Rightarrow> x) s = (Some strat, s1)"
    and "description Y = oo # rest"
  shows "u_computeChaosSensitivity ot s X Y strategy_arg q_arg verbose =
     (case run ot X Y (distribution s) strat of
        Inl e \<Rightarrow> (Inl e, s1\<lparr>runs := runs s @ [(X, Y, distribution s, strat)]\<rparr>)
      | Inr result \<Rightarrow>
          store_and_read ot (s1\<lparr>runs := runs s @ [(X, Y, distribution s, strat)]\<rparr>) oo result
            verbose)"
proof -
  from choose_strategy_frame [OF assms(3)]
  have "distribution s1 = distribution s" "runs s1 = runs s" by simp_all
  with assms show ?thesis
    by (simp add: fit_def2 Let_def split: sum.split)
qed

lemma fit_cases:
  assumes fit: "u_computeChaosSensitivity ot s X Y strategy_arg q_arg verbose = (r, s')"
    and ef: "ef = HyperbolicAnisotropicEnumerateFunction (length (input_names s))
               (case q_arg of None \<Rightarrow> 4 / 10 | Some x \<Rightarrow> x)"
    and st: "strategy = (case strategy_arg of None \<Rightarrow> ''cleaning'' | Some x \<Rightarrow> x)"
  obtains
    (poly) e where
      "polyColl_of (distribution s) (input_names s) = Inl e"
      "r = Inl e" "s' = s"
  | (nodesc) pc A s1 where
      "polyColl_of (distribution s) (input_names s) = Inr pc"
      "choose_strategy ot (OrthogonalProductPolynomialFactory pc ef) ef strategy s = (A, s1)"
      "description Y = []" "r = Inl IndexError" "s' = s1"
  | (unbound) pc s1 oo rest where
      "polyColl_of (distribution s) (input_names s) = Inr pc"
      "choose_strategy ot (OrthogonalProductPolynomialFactory pc ef) ef strategy s = (None, s1)"
      "description Y = oo # rest" "r = Inl UnboundLocalError" "s' = s1"
  | (runfail) pc strat s1 oo rest e where
      "polyColl_of (distribution s) (input_names s) = Inr pc"
      "choose_strategy ot (OrthogonalProductPolynomialFactory pc ef) ef strategy s = (Some strat, s1)"
      "description Y = oo # rest"
      "run ot X Y (distribution s) strat = Inl e"
      "r = Inl e" "s' = s1\<lparr>runs := runs s @ [(X, Y, distribution s, strat)]\<rparr>"
  | (stored) pc strat s1 oo rest result where
      "polyColl_of (distribution s) (input_names s) = Inr pc"
      "choose_strategy ot (OrthogonalProductPolynomialFactory pc ef) ef strategy s = (Some strat, s1)"
      "description Y = oo # rest"
      "run ot X Y (distribution s) strat = Inr result"
      "store_and_read ot (s1\<lparr>runs := runs s @ [(X, Y, distribution s, strat)]\<rparr>) oo result verbose
         = (r, s')"
proof (cases "polyColl_of (distribution s) (input_names s)")
  case (Inl e)
  with fit have "r = Inl e" "s' = s"
    by (simp_all add: fit_def2)
  with Inl show ?thesis by (rule poly)
next
  case (Inr pc)
  obtain A s1 where cs:
    "choose_strategy ot (OrthogonalProductPolynomialFactory pc ef) ef strategy s = (A, s1)"
    by (cases "choose_strategy ot (OrthogonalProductPolynomialFactory pc ef) ef strategy s") blast
  show ?thesis
  proof (cases "description Y")
    case Nil
    with fit Inr cs have "r = Inl IndexError" "s' = s1"
      by (simp_all add: fit_def2 Let_def ef st)
    with Inr cs Nil show ?thesis by (rule nodesc)
  next
    case (Cons oo rest)
    show ?thesis
    proof (cases A)
      case None
      with fit Inr cs Cons have "r = Inl UnboundLocalError" "s' = s1"
        by (simp_all add: fit_def2 Let_def ef st)
      with Inr cs Cons None show ?thesis by (intro unbound [of pc s1 oo rest]) simp_all
    next
      case (Some strat)
      note eq = fit_run [OF Inr ef cs [unfolded Some st] Cons, of X verbose]
      show ?thesis
      proof (cases "run ot X Y (distribution s) strat")
        case (Inl e)
        with fit eq have "r = Inl e" "s' = s1\<lparr>runs := runs s @ [(X, Y, distribution s, strat)]\<rparr>"
          by simp_all
        with Inr cs Cons Some Inl show ?thesis by (intro runfail [of pc strat s1 oo rest e]) simp_all
      next
        case (Inr result)
        with fit eq have
          "store_and_read ot (s1\<lparr>runs := runs s @ [(X, Y, distribution s, strat)]\<rparr>) oo result verbose
             = (r, s')"
          by simp
        with \<open>polyColl_of _ _ = Inr pc\<close> cs Cons Some Inr show ?thesis
          by (intro stored [of pc strat s1 oo rest result]) simp_all
      qed
    qed
  qed
qed

lemma fit_default_Inr:
  assumes "u_computeChaosSensitivity ot s X Y None None verbose = (Inr p, s')"
  shows "\<exists>strat. runs s' = runs s @ [(X, Y, distribution s, strat)] \<and>
           default_cleaning (length (input_names s)) strat \<and>
           fit_outcome ot (length (input_names s)) (X, Y, distribution s, strat) = Inr p"
proof (cases rule: fit_cases [OF assms refl refl, case_names poly nodesc unbound runfail stored])
  case (stored pc strat s1 oo rest result)
  from stored(2) have strat: "strat = CleaningStrategy
      (OrthogonalProductPolynomialFactory pc
         (HyperbolicAnisotropicEnumerateFunction (length (input_names s)) (4 / 10))) 200 20 (1 / 10 ^ 4)"
    and s1: "s1 = s"
    by (auto simp: choose_strategy_cleaning)
  from store_and_read_frame [OF stored(5)]
  have r: "runs s' = runs s @ [(X, Y, distribution s, strat)]" by simp
  from store_and_read_Inr [OF stored(5)] s1
  have "read_indices ot (length (input_names s)) (FunctionalChaosSobolIndices result) = Inr p"
    by simp
  with stored(4) have "fit_outcome ot (length (input_names s)) (X, Y, distribution s, strat) = Inr p"
    by (simp add: fit_outcome_def)
  with r strat show ?thesis by simp
qed simp_all

lemma fit_default_runs:
  assumes "u_computeChaosSensitivity ot s X Y None None verbose = (r, s')"
  shows "runs s' = runs s \<or>
     (\<exists>strat. runs s' = runs s @ [(X, Y, distribution s, strat)] \<and>
        default_cleaning (length (input_names s)) strat)"
proof (cases rule: fit_cases [OF assms refl refl, case_names poly nodesc unbound runfail stored])
  case (poly e)
  then show ?thesis by simp
next
  case (nodesc pc A s1)
  then show ?thesis using choose_strategy_frame by blast
next
  case (unbound pc s1 oo rest)
  then show ?thesis using choose_strategy_frame by blast
next
  case (runfail pc strat s1 oo rest e)
  from runfail(2) have "default_cleaning (length (input_names s)) strat"
    by (auto simp: choose_strategy_cleaning)
  with runfail show ?thesis by simp
next
  case (stored pc strat s1 oo rest result)
  from stored(2) have "default_cleaning (length (input_names s)) strat"
    by (auto simp: choose_strategy_cleaning)
  with store_and_read_frame [OF stored(5)] show ?thesis by simp
qed

lemma multiBootstrap_two:
  "multiBootstrap ot [X, Y] g =
     (case GenerateSelection ot (getSize X) (getSize X) g of
        (selection, g') \<Rightarrow>
          ((case select X selection of
              Inl e \<Rightarrow> Inl e
            | Inr X_boot \<Rightarrow>
                (case select Y selection of
                   Inl e \<Rightarrow> Inl e
                 | Inr Y_boot \<Rightarrow> Inr [X_boot, Y_boot])), g'))"
  by (simp add: multiBootstrap_def Let_def split: prod.split sum.split)

lemma multiBootstrap_Inr:
  assumes "multiBootstrap ot [X, Y] g = (Inr L, g')"
  shows "\<exists>selection X_boot Y_boot.
           GenerateSelection ot (getSize X) (getSize X) g = (selection, g') \<and>
           select X selection = Inr X_boot \<and> select Y selection = Inr Y_boot \<and>
           L = [X_boot, Y_boot]"
  using assms unfolding multiBootstrap_two
  by (auto split: prod.splits sum.splits)

lemma bootstrap_loop_Suc_cases:
  assumes loop: "bootstrap_loop ot (Suc n) X Y unit_eps (fo, to) s = (r, s'')"
  obtains
    (resample) e g where
      "multiBootstrap ot [X, Y] (rng s) = (Inl e, g)" "r = Inl e" "s'' = s\<lparr>rng := g\<rparr>"
  | (fit) X_boot Y_boot g e where
      "multiBootstrap ot [X, Y] (rng s) = (Inr [X_boot, Y_boot], g)"
      "u_computeChaosSensitivity ot (s\<lparr>rng := g\<rparr>) X_boot Y_boot None None False = (Inl e, s'')"
      "r = Inl e"
  | (check) X_boot Y_boot g a b e where
      "multiBootstrap ot [X, Y] (rng s) = (Inr [X_boot, Y_boot], g)"
      "u_computeChaosSensitivity ot (s\<lparr>rng := g\<rparr>) X_boot Y_boot None None False =
         (Inr (a, b), s'')"
      "r = Inl e"
  | (discard) X_boot Y_boot g a b s' where
      "multiBootstrap ot [X, Y] (rng s) = (Inr [X_boot, Y_boot], g)"
      "u_computeChaosSensitivity ot (s\<lparr>rng := g\<rparr>) X_boot Y_boot None None False =
         (Inr (a, b), s')"
      "contains unit_eps a = Inr False \<or>
       contains unit_eps a = Inr True \<and> contains unit_eps b = Inr False"
      "bootstrap_loop ot n X Y unit_eps (fo, to) s' = (r, s'')"
  | (retain) X_boot Y_boot g a b s' fo' to' where
      "multiBootstrap ot [X, Y] (rng s) = (Inr [X_boot, Y_boot], g)"
      "u_computeChaosSensitivity ot (s\<lparr>rng := g\<rparr>) X_boot Y_boot None None False =
         (Inr (a, b), s')"
      "contains unit_eps a = Inr True" "contains unit_eps b = Inr True"
      "add_point fo a = Inr fo'" "add_point to b = Inr to'"
      "bootstrap_loop ot n X Y unit_eps (fo', to') s' = (r, s'')"
proof (cases "multiBootstrap ot [X, Y] (rng s)")
  case (Pair m g)
  show ?thesis
  proof (cases m)
    case (Inl e)
    with loop Pair have "r = Inl e" "s'' = s\<lparr>rng := g\<rparr>" by simp_all
    with Pair Inl show ?thesis by (intro resample [of e g]) simp_all
  next
    case (Inr L)
    from multiBootstrap_Inr [OF Pair [unfolded Inr]]
    obtain X_boot Y_boot where L: "L = [X_boot, Y_boot]"
      by blast
    note mb = Pair [unfolded Inr L]
    obtain fr s' where f:
      "u_computeChaosSensitivity ot (s\<lparr>rng := g\<rparr>) X_boot Y_boot None None False = (fr, s')"
      by (cases "u_computeChaosSensitivity ot (s\<lparr>rng := g\<rparr>) X_boot Y_boot None None False") blast
    show ?thesis
    proof (cases fr)
      case (Inl e)
      with loop mb f have "r = Inl e" "s'' = s'" by simp_all
      with mb f Inl show ?thesis by (intro fit [of X_boot Y_boot g e]) simp_all
    next
      case (Inr p)
      obtain a b where p: "p = (a, b)" by (cases p) blast
      note f' = f [unfolded Inr p]
      from loop mb f' have step:
        "(case contains unit_eps a of
            Inl e \<Rightarrow> (Inl e, s')
          | Inr False \<Rightarrow> bootstrap_loop ot n X Y unit_eps (fo, to) s'
          | Inr True \<Rightarrow>
             (case contains unit_eps b of
                Inl e \<Rightarrow> (Inl e, s')
              | Inr False \<Rightarrow> bootstrap_loop ot n X Y unit_eps (fo, to) s'
              | Inr True \<Rightarrow>
                 (case add_point fo a of
                    Inl e \<Rightarrow> (Inl e, s')
                  | Inr fo' \<Rightarrow>
                     (case add_point to b of
                        Inl e \<Rightarrow> (Inl e, s')
                      | Inr to' \<Rightarrow> bootstrap_loop ot n X Y unit_eps (fo', to') s')))) = (r, s'')"
        by simp
      show ?thesis
      proof (cases "contains unit_eps a")
        case (Inl e)
        with step have "r = Inl e" "s'' = s'" by simp_all
        with mb f' show ?thesis by (intro check [of X_boot Y_boot g a b e]) simp_all
      next
        case ca: (Inr c1)
        show ?thesis
        proof (cases c1)
          case False
          with step ca have "bootstrap_loop ot n X Y unit_eps (fo, to) s' = (r, s'')" by simp
          with mb f' ca False show ?thesis by (intro discard [of X_boot Y_boot g a b s']) simp_all
        next
          case True
          with ca have ca: "contains unit_eps a = Inr True" by simp
          show ?thesis
          proof (cases "contains unit_eps b")
            case (Inl e)
            with step ca have "r = Inl e" "s'' = s'" by simp_all
            with mb f' show ?thesis by (intro check [of X_boot Y_boot g a b e]) simp_all
          next
            case cb: (Inr c2)
            show ?thesis
            proof (cases c2)
              case False
              with step ca cb have "bootstrap_loop ot n X Y unit_eps (fo, to) s' = (r, s'')"
                by simp
              with mb f' ca cb False show ?thesis
                by (intro discard [of X_boot Y_boot g a b s']) simp_all
            next
              case True
              with cb have cb: "contains unit_eps b = Inr True" by simp
              show ?thesis
              proof (cases "add_point fo a")
                case (Inl e)
                with step ca cb have "r = Inl e" "s'' = s'" by simp_all
                with mb f' show ?thesis by (intro check [of X_boot Y_boot g a b e]) simp_all
              next
                case af: (Inr fo')
                show ?thesis
                proof (cases "add_point to b")
                  case (Inl e)
                  with step ca cb af have "r = Inl e" "s'' = s'" by simp_all
                  with mb f' show ?thesis by (intro check [of X_boot Y_boot g a b e]) simp_all
                next
                  case at: (Inr to')
                  with step ca cb af have
                    "bootstrap_loop ot n X Y unit_eps (fo', to') s' = (r, s'')" by simp
                  with mb f' ca cb af at show ?thesis
                    by (intro retain [of X_boot Y_boot g a b s' fo' to']) simp_all
                qed
              qed
            qed
          qed
        qed
      qed
    qed
  qed
qed

lemma bootstrap_loop_trace:
  "bootstrap_loop ot n X Y unit_eps acc s = (r, s') \<Longrightarrow>
   input_names s' = input_names s \<and> distribution s' = distribution s \<and>
   (\<exists>new. runs s' = runs s @ new \<and> length new \<le> n \<and>
      (\<forall>c \<in> set new. drawn_jointly ot X Y c \<and>
         default_cleaning (length (input_names s)) (snd (snd (snd c)))))"
proof (induction n arbitrary: acc s)
  case 0
  obtain fo to where "acc = (fo, to)" by (cases acc) blast
  with 0 show ?case by simp
next
  case (Suc n)
  obtain fo to where acc: "acc = (fo, to)" by (cases acc) blast
  note loop = Suc.prems [unfolded acc]
  have step: "input_names s1 = input_names s \<and> distribution s1 = distribution s \<and>
      (\<exists>new. runs s1 = runs s @ new \<and> length new \<le> 1 \<and>
         (\<forall>c \<in> set new. drawn_jointly ot X Y c \<and>
            default_cleaning (length (input_names s)) (snd (snd (snd c)))))"
    if mb: "multiBootstrap ot [X, Y] (rng s) = (Inr [X_boot, Y_boot], g)"
      and f: "u_computeChaosSensitivity ot (s\<lparr>rng := g\<rparr>) X_boot Y_boot None None False = (fr, s1)"
    for X_boot Y_boot g fr s1
  proof -
    from multiBootstrap_Inr [OF mb]
    have dj: "drawn_jointly ot X Y (X_boot, Y_boot, m, strat)" for m strat
      by (auto simp: drawn_jointly_def)
    from fit_frame [OF f] have fr: "input_names s1 = input_names s" "distribution s1 = distribution s"
      by simp_all
    from fit_default_runs [OF f] consider "runs s1 = runs s"
      | strat where "runs s1 = runs s @ [(X_boot, Y_boot, distribution s, strat)]"
          "default_cleaning (length (input_names s)) strat"
      by auto
    then have "\<exists>new. runs s1 = runs s @ new \<and> length new \<le> 1 \<and>
         (\<forall>c \<in> set new. drawn_jointly ot X Y c \<and>
            default_cleaning (length (input_names s)) (snd (snd (snd c))))"
    proof cases
      case 1
      then show ?thesis by (intro exI [of _ "[]"]) simp
    next
      case (2 strat)
      with dj show ?thesis
        by (intro exI [of _ "[(X_boot, Y_boot, distribution s, strat)]"]) simp
    qed
    with fr show ?thesis by simp
  qed
  have continue: ?case
    if st: "input_names s1 = input_names s \<and> distribution s1 = distribution s \<and>
      (\<exists>new. runs s1 = runs s @ new \<and> length new \<le> 1 \<and>
         (\<forall>c \<in> set new. drawn_jointly ot X Y c \<and>
            default_cleaning (length (input_names s)) (snd (snd (snd c)))))"
      and rest: "bootstrap_loop ot n X Y unit_eps acc1 s1 = (r, s')"
    for s1 acc1
  proof -
    from st obtain new1 where n1: "runs s1 = runs s @ new1" "length new1 \<le> 1"
      "\<forall>c \<in> set new1. drawn_jointly ot X Y c \<and>
            default_cleaning (length (input_names s)) (snd (snd (snd c)))"
      and fr: "input_names s1 = input_names s" "distribution s1 = distribution s"
      by blast
    from Suc.IH [OF rest] fr obtain new2 where n2: "runs s' = runs s1 @ new2" "length new2 \<le> n"
      "\<forall>c \<in> set new2. drawn_jointly ot X Y c \<and>
            default_cleaning (length (input_names s)) (snd (snd (snd c)))"
      and fr2: "input_names s' = input_names s" "distribution s' = distribution s"
      by auto
    from n1 n2 have "runs s' = runs s @ (new1 @ new2)" "length (new1 @ new2) \<le> Suc n"
      "\<forall>c \<in> set (new1 @ new2). drawn_jointly ot X Y c \<and>
            default_cleaning (length (input_names s)) (snd (snd (snd c)))"
      by auto
    with fr2 show ?thesis by blast
  qed
  have stop: ?case
    if st: "input_names s' = input_names s \<and> distribution s' = distribution s \<and>
      (\<exists>new. runs s' = runs s @ new \<and> length new \<le> 1 \<and>
         (\<forall>c \<in> set new. drawn_jointly ot X Y c \<and>
            default_cleaning (length (input_names s)) (snd (snd (snd c)))))"
  proof -
    from st obtain new where n1: "runs s' = runs s @ new" "length new \<le> 1"
      "\<forall>c \<in> set new. drawn_jointly ot X Y c \<and>
            default_cleaning (length (input_names s)) (snd (snd (snd c)))"
      and fr: "input_names s' = input_names s" "distribution s' = distribution s"
      by blast
    from n1(2) have "length new \<le> Suc n" by simp
    with n1 fr show ?thesis by blast
  qed
  from loop show ?case
  proof (cases rule: bootstrap_loop_Suc_cases)
    case (resample e g)
    then show ?thesis by (intro conjI exI [of _ "[]"]) simp_all
  next
    case (fit X_boot Y_boot g e)
    from step [OF fit(1,2)] show ?thesis by (rule stop)
  next
    case (check X_boot Y_boot g a b e)
    from step [OF check(1,2)] show ?thesis by (rule stop)
  next
    case (discard X_boot Y_boot g a b s1)
    from step [OF discard(1,2)] discard(4) show ?thesis by (rule continue)
  next
    case (retain X_boot Y_boot g a b s1 fo' to')
    from step [OF retain(1,2)] retain(7) show ?thesis by (rule continue)
  qed
qed

lemma select_Inr:
  "select Z selection = Inr Zb \<Longrightarrow>
   getSize Zb = length selection \<and>
   (\<forall>k < length selection. selection ! k < getSize Z \<and> rows Zb ! k = rows Z ! (selection ! k))"
  by (auto simp: select_def getSize_def split: if_splits)

lemma contains_unit_eps:
  "contains (unit_eps_of d) p =
     (if length p \<noteq> d then Inl InvalidArgumentException else Inr (inside_unit_eps d p))"
  by (auto simp: unit_eps_of_def inside_unit_eps_def list_all_iff all_set_conv_all_nth)

lemma add_point_rows: "add_point Z p = Inr Z' \<Longrightarrow> rows Z' = rows Z @ [p]"
  by (auto simp: add_point_def split: if_splits)

lemma bootstrap_loop_retained:
  "bootstrap_loop ot n X Y (unit_eps_of d) (fo, to) s = (Inr (fo', to'), s') \<Longrightarrow>
   \<exists>attempts new.
      runs s' = runs s @ new \<and> length new = n \<and> length attempts = n \<and>
      map (fit_outcome ot (length (input_names s))) new = map Inr attempts \<and>
      rows fo' = rows fo @
        map fst (filter (\<lambda>(a, b). inside_unit_eps d a \<and> inside_unit_eps d b) attempts) \<and>
      rows to' = rows to @
        map snd (filter (\<lambda>(a, b). inside_unit_eps d a \<and> inside_unit_eps d b) attempts)"
proof (induction n arbitrary: fo to s)
  case 0
  then show ?case by simp
next
  case (Suc n)
  let ?keep = "\<lambda>(a, b). inside_unit_eps d a \<and> inside_unit_eps d b"
  have continue: ?case
    if mb: "multiBootstrap ot [X, Y] (rng s) = (Inr [X_boot, Y_boot], g)"
      and f: "u_computeChaosSensitivity ot (s\<lparr>rng := g\<rparr>) X_boot Y_boot None None False =
                (Inr (a, b), s1)"
      and rest: "bootstrap_loop ot n X Y (unit_eps_of d) (fo1, to1) s1 = (Inr (fo', to'), s')"
      and fo1: "rows fo1 = rows fo @ map fst (filter ?keep [(a, b)])"
      and to1: "rows to1 = rows to @ map snd (filter ?keep [(a, b)])"
    for X_boot Y_boot g a b s1 fo1 to1
  proof -
    from fit_default_Inr [OF f] obtain strat where
      r1: "runs s1 = runs s @ [(X_boot, Y_boot, distribution s, strat)]"
      and o1: "fit_outcome ot (length (input_names s)) (X_boot, Y_boot, distribution s, strat) =
                 Inr (a, b)"
      by auto
    from fit_frame [OF f] have names: "input_names s1 = input_names s" by simp
    from Suc.IH [OF rest] names obtain attempts new where
      ih: "runs s' = runs s1 @ new" "length new = n" "length attempts = n"
        "map (fit_outcome ot (length (input_names s))) new = map Inr attempts"
        "rows fo' = rows fo1 @ map fst (filter ?keep attempts)"
        "rows to' = rows to1 @ map snd (filter ?keep attempts)"
      by auto
    let ?new = "(X_boot, Y_boot, distribution s, strat) # new"
    let ?att = "(a, b) # attempts"
    from r1 ih(1) have 1: "runs s' = runs s @ ?new" by simp
    from ih(2,3) have 2: "length ?new = Suc n" "length ?att = Suc n" by simp_all
    from o1 ih(4) have 3: "map (fit_outcome ot (length (input_names s))) ?new = map Inr ?att"
      by simp
    from ih(5) fo1 have 4: "rows fo' = rows fo @ map fst (filter ?keep ?att)"
      by (cases "?keep (a, b)") simp_all
    from ih(6) to1 have 5: "rows to' = rows to @ map snd (filter ?keep ?att)"
      by (cases "?keep (a, b)") simp_all
    from 1 2 3 4 5 show ?thesis by blast
  qed
  from Suc.prems show ?case
  proof (cases rule: bootstrap_loop_Suc_cases)
    case (discard X_boot Y_boot g a b s1)
    from discard(3) have "\<not> ?keep (a, b)"
      by (auto simp: contains_unit_eps split: if_splits)
    then have "rows fo = rows fo @ map fst (filter ?keep [(a, b)])"
      "rows to = rows to @ map snd (filter ?keep [(a, b)])"
      by simp_all
    with discard(1,2,4) show ?thesis by (rule continue)
  next
    case (retain X_boot Y_boot g a b s1 fo1 to1)
    from retain(3,4) have "?keep (a, b)"
      by (auto simp: contains_unit_eps split: if_splits)
    with add_point_rows [OF retain(5)] add_point_rows [OF retain(6)]
    have "rows fo1 = rows fo @ map fst (filter ?keep [(a, b)])"
      "rows to1 = rows to @ map snd (filter ?keep [(a, b)])"
      by simp_all
    with retain(1,2,7) show ?thesis by (rule continue)
  qed simp_all
qed

lemma demo_loop_2:
  "bootstrap_loop demo_ot 2 demo_X demo_Y (unit_eps_of 1) (Sample0 1, Sample0 1) demo_self =
     (Inr (demo_retained, demo_retained), demo_after)"
  by (simp add: numeral_2_eq_2 multiBootstrap_two demo_ot_def demo_selection_def demo_X_def
      demo_Y_def getSize_def select_def u_computeChaosSensitivity_def build_productBasis_def demo_self_def demo_new_def
      choose_strategy_def store_and_read_def read_indices_def demo_run_def demo_index_def
      unit_eps_of_def Sample0_def default_description_1 add_point_def Let_def demo_after_def demo_retained_def
      demo_cleaning_def demo_X2_def demo_Y2_def)

lemma bootstrap_output_state:
  assumes "bootstrap_output ot B verbose plot X d oo dicts s = (r, s')"
  shows "s' = banner verbose oo s \<or>
     (\<exists>Y. outputSample s oo = Some Y \<and>
        s' = snd (bootstrap_loop ot (nat B) X Y (unit_eps_of d) (Sample0 d, Sample0 d)
                    (banner verbose oo s)))"
proof (cases "outputSample s oo")
  case None
  with assms show ?thesis
    by (auto simp: bootstrap_output_def banner_def Let_def)
next
  case (Some Y)
  then have o: "outputSample (banner verbose oo s) oo = Some Y"
    by (simp add: banner_def)
  obtain lr s1 where l: "bootstrap_loop ot (nat B) X Y (unit_eps_of d) (Sample0 d, Sample0 d)
                    (banner verbose oo s) = (lr, s1)"
    by (cases "bootstrap_loop ot (nat B) X Y (unit_eps_of d) (Sample0 d, Sample0 d)
                    (banner verbose oo s)") blast
  from assms o l have "s' = s1"
    unfolding bootstrap_output_def banner_def [symmetric] unit_eps_of_def [symmetric] Let_def
    by (auto split: sum.splits prod.splits if_splits)
  with Some l show ?thesis by simp
qed

lemma bootstrap_output_trace:
  assumes "bootstrap_output ot B verbose plot X d oo dicts s = (r, s')"
  shows "input_names s' = input_names s \<and>
     (\<exists>new. runs s' = runs s @ new \<and>
        (\<forall>c \<in> set new. default_cleaning (length (input_names s)) (snd (snd (snd c)))))"
proof -
  have b: "input_names (banner verbose oo s) = input_names s"
    "runs (banner verbose oo s) = runs s"
    by (simp_all add: banner_def)
  from bootstrap_output_state [OF assms] show ?thesis
  proof
    assume "s' = banner verbose oo s"
    with b show ?thesis by simp
  next
    assume "\<exists>Y. outputSample s oo = Some Y \<and>
        s' = snd (bootstrap_loop ot (nat B) X Y (unit_eps_of d) (Sample0 d, Sample0 d)
                    (banner verbose oo s))"
    then obtain Y where sy:
      "s' = snd (bootstrap_loop ot (nat B) X Y (unit_eps_of d) (Sample0 d, Sample0 d)
                    (banner verbose oo s))"
      by blast
    have "bootstrap_loop ot (nat B) X Y (unit_eps_of d) (Sample0 d, Sample0 d)
         (banner verbose oo s) =
       (fst (bootstrap_loop ot (nat B) X Y (unit_eps_of d) (Sample0 d, Sample0 d)
         (banner verbose oo s)), s')"
      unfolding sy by simp
    from bootstrap_loop_trace [OF this] b show ?thesis by auto
  qed
qed

lemma bootstrap_outputs_trace:
  "bootstrap_outputs ot B verbose plot X d outs dicts s = (r, s') \<Longrightarrow>
   input_names s' = input_names s \<and>
   (\<exists>new. runs s' = runs s @ new \<and>
      (\<forall>c \<in> set new. default_cleaning (length (input_names s)) (snd (snd (snd c)))))"
proof (induction outs arbitrary: dicts s)
  case Nil
  then show ?case by simp
next
  case (Cons oo rest)
  obtain r1 s1 where o: "bootstrap_output ot B verbose plot X d oo dicts s = (r1, s1)"
    by (cases "bootstrap_output ot B verbose plot X d oo dicts s") blast
  from bootstrap_output_trace [OF o] obtain new1 where
    n1: "input_names s1 = input_names s" "runs s1 = runs s @ new1"
      "\<forall>c \<in> set new1. default_cleaning (length (input_names s)) (snd (snd (snd c)))"
    by blast
  show ?case
  proof (cases r1)
    case (Inl e)
    with Cons.prems o have "s' = s1" by simp
    with n1 show ?thesis by blast
  next
    case (Inr dicts1)
    with Cons.prems o have "bootstrap_outputs ot B verbose plot X d rest dicts1 s1 = (r, s')"
      by simp
    from Cons.IH [OF this] n1(1) obtain new2 where
      n2: "input_names s' = input_names s" "runs s' = runs s1 @ new2"
        "\<forall>c \<in> set new2. default_cleaning (length (input_names s)) (snd (snd (snd c)))"
      by auto
    from n1 n2 have "runs s' = runs s @ (new1 @ new2)"
      "\<forall>c \<in> set (new1 @ new2). default_cleaning (length (input_names s)) (snd (snd (snd c)))"
      by auto
    with n2(1) show ?thesis by blast
  qed
qed

lemma computeBootstrap_trace:
  assumes "computeBootstrapChaosSobolIndices ot s B verbose_arg plot_arg = (r, s')"
  shows "input_names s' = input_names s \<and>
   (\<exists>new. runs s' = runs s @ new \<and>
      (\<forall>c \<in> set new. default_cleaning (length (input_names s)) (snd (snd (snd c)))))"
proof -
  let ?v = "case verbose_arg of None \<Rightarrow> True | Some b \<Rightarrow> b"
  let ?p = "case plot_arg of None \<Rightarrow> True | Some b \<Rightarrow> b"
  let ?d0 = "\<lparr>FO = Map.empty, TO = Map.empty, FOI = Map.empty, TOI = Map.empty\<rparr>"
  obtain r1 s1 where o:
    "bootstrap_outputs ot B ?v ?p (inputSample s) (dimension (inputSample s)) (output_names s)
       ?d0 s = (r1, s1)"
    by (cases "bootstrap_outputs ot B ?v ?p (inputSample s) (dimension (inputSample s))
       (output_names s) ?d0 s") blast
  from assms o have "input_names s' = input_names s1 \<and> runs s' = runs s1"
    by (auto simp: computeBootstrapChaosSobolIndices_def Let_def split: sum.splits)
  with bootstrap_outputs_trace [OF o] show ?thesis by simp
qed

lemma computeChaosSensitivity_loop_names:
  "computeChaosSensitivity_loop ot strategy q outs s = (r, s') \<Longrightarrow>
   input_names s' = input_names s"
proof (induction outs arbitrary: s)
  case Nil
  then show ?case by simp
next
  case (Cons oo rest)
  let ?s0 = "s\<lparr>stdout := stdout s @
                 [[PStr (replicate 20 (CHR ''='')), PStr oo, PStr (replicate 20 (CHR ''='')),
                   PStr [CHR 0x0A]]]\<rparr>"
  show ?case
  proof (cases "outputSample ?s0 oo")
    case None
    with Cons.prems show ?thesis by (auto simp: Let_def)
  next
    case (Some Y)
    obtain fr s1 where f:
      "u_computeChaosSensitivity ot ?s0 (inputSample ?s0) Y (Some strategy) (Some q) False = (fr, s1)"
      by (cases "u_computeChaosSensitivity ot ?s0 (inputSample ?s0) Y (Some strategy) (Some q) False")
        blast
    from fit_frame [OF f] have n1: "input_names s1 = input_names s" by simp
    show ?thesis
    proof (cases fr)
      case (Inl e)
      with Cons.prems Some f n1 show ?thesis by (auto simp: Let_def)
    next
      case (Inr p)
      obtain a b where p: "p = (a, b)" by (cases p) blast
      show ?thesis
      proof (cases "S1 s1")
        case None
        with Cons.prems Some f Inr p n1 show ?thesis by (auto simp: Let_def)
      next
        case d1: (Some d1)
        show ?thesis
        proof (cases "ST s1")
          case None
          with Cons.prems Some f Inr p n1 d1 show ?thesis by (auto simp: Let_def)
        next
          case (Some dT)
          with Cons.prems \<open>outputSample ?s0 oo = Some Y\<close> f Inr p d1 have
            "computeChaosSensitivity_loop ot strategy q rest
               (s1\<lparr>S1 := Some (d1(oo \<mapsto> a)), ST := Some (dT(oo \<mapsto> b))\<rparr>) = (r, s')"
            by (auto simp: Let_def)
          from Cons.IH [OF this] n1 show ?thesis by simp
        qed
      qed
    qed
  qed
qed

lemma computeChaosSensitivity_names:
  "computeChaosSensitivity ot s strategy_arg q_arg = (r, s') \<Longrightarrow>
   input_names s' = input_names s"
  unfolding computeChaosSensitivity_def Let_def
  by (drule computeChaosSensitivity_loop_names) simp

lemma demo_cardinal_2:
  "demo_cardinal (HyperbolicAnisotropicEnumerateFunction d q) 2 = (d + 2) * (d + 1) div 2"
  by (simp add: demo_cardinal_def choose_two)

lemma demo_point_estimates:
  "computeChaosSensitivity demo_ot demo_new (Some ''fixed'') (Some 1) = (Inr (), demo_point)"
  by (simp add: computeChaosSensitivity_def demo_new_def demo_ot_def demo_X_def demo_Y_def
      u_computeChaosSensitivity_def build_productBasis_def choose_strategy_def store_and_read_def read_indices_def
      demo_run_def demo_index_def demo_cardinal_2 demo_point_def demo_fixed_def Let_def)

lemma demo_bootstrap_runs:
  "map (\<lambda>c. snd (snd (snd c)))
     (runs (snd (computeBootstrapChaosSobolIndices demo_ot demo_point 2 (Some False) (Some False))))
   = [demo_fixed, demo_cleaning, demo_cleaning]"
  by (simp add: computeBootstrapChaosSobolIndices_def bootstrap_output_def
      numeral_2_eq_2 multiBootstrap_two demo_ot_def demo_selection_def demo_X_def
      demo_Y_def getSize_def select_def u_computeChaosSensitivity_def build_productBasis_def demo_new_def
      choose_strategy_def store_and_read_def read_indices_def demo_run_def demo_index_def
      Sample0_def add_point_def Let_def demo_point_def computeSobolIndicesConfidenceInterval_def
      column_def demo_quantile_def
      demo_cleaning_def demo_fixed_def)

lemma choose_strategy_fst:
  "fst (choose_strategy ot pb ef strategy s) = fst (choose_strategy ot pb ef strategy t)"
  by (simp add: choose_strategy_def Let_def)

lemma store_and_read_twice:
  assumes "store_and_read ot t oo result verbose = (r1, s1)"
    and "store_and_read ot t' oo result verbose = (r2, s2)"
    and "input_names t' = input_names t" "metamodel t' = metamodel s1" "chaosSI t' = chaosSI s1"
  shows "r2 = r1 \<and> metamodel s2 = metamodel s1 \<and> chaosSI s2 = chaosSI s1"
  using assms
  by (auto simp: store_and_read_def Let_def split: option.splits if_splits)

lemma fit_unfold:
  "u_computeChaosSensitivity ot s X Y strategy_arg q_arg verbose =
     (case polyColl_of (distribution s) (input_names s) of
        Inl e \<Rightarrow> (Inl e, s)
      | Inr pc \<Rightarrow>
         (case description Y of
            [] \<Rightarrow> (Inl IndexError,
                   snd (choose_strategy ot
                     (OrthogonalProductPolynomialFactory pc
                       (HyperbolicAnisotropicEnumerateFunction (length (input_names s))
                         (case q_arg of None \<Rightarrow> 4 / 10 | Some x \<Rightarrow> x)))
                     (HyperbolicAnisotropicEnumerateFunction (length (input_names s))
                         (case q_arg of None \<Rightarrow> 4 / 10 | Some x \<Rightarrow> x))
                     (case strategy_arg of None \<Rightarrow> ''cleaning'' | Some x \<Rightarrow> x) s))
          | oo # rest \<Rightarrow>
             (case choose_strategy ot
                     (OrthogonalProductPolynomialFactory pc
                       (HyperbolicAnisotropicEnumerateFunction (length (input_names s))
                         (case q_arg of None \<Rightarrow> 4 / 10 | Some x \<Rightarrow> x)))
                     (HyperbolicAnisotropicEnumerateFunction (length (input_names s))
                         (case q_arg of None \<Rightarrow> 4 / 10 | Some x \<Rightarrow> x))
                     (case strategy_arg of None \<Rightarrow> ''cleaning'' | Some x \<Rightarrow> x) s of
                (None, s1) \<Rightarrow> (Inl UnboundLocalError, s1)
              | (Some strat, s1) \<Rightarrow>
                 (case run ot X Y (distribution s) strat of
                    Inl e \<Rightarrow> (Inl e, s1\<lparr>runs := runs s @ [(X, Y, distribution s, strat)]\<rparr>)
                  | Inr result \<Rightarrow>
                      store_and_read ot (s1\<lparr>runs := runs s @ [(X, Y, distribution s, strat)]\<rparr>)
                        oo result verbose))))"
  unfolding fit_def2 Let_def
  by (auto split: sum.split list.split prod.split option.split dest: choose_strategy_frame)

lemma fit_twice:
  assumes one: "u_computeChaosSensitivity ot s X Y strategy_arg q_arg verbose = (r1, s1)"
    and two: "u_computeChaosSensitivity ot s1 X Y strategy_arg q_arg verbose = (r2, s2)"
  shows "r2 = r1 \<and> metamodel s2 = metamodel s1 \<and> chaosSI s2 = chaosSI s1"
proof -
  let ?ef = "\<lambda>s::('a, 'b) pce. HyperbolicAnisotropicEnumerateFunction (length (input_names s))
               (case q_arg of None \<Rightarrow> 4 / 10 | Some x \<Rightarrow> x)"
  let ?st = "case strategy_arg of None \<Rightarrow> ''cleaning'' | Some x \<Rightarrow> x"
  from fit_frame [OF one] have fr: "input_names s1 = input_names s" "distribution s1 = distribution s"
    by simp_all
  show ?thesis
  proof (cases "polyColl_of (distribution s) (input_names s)")
    case (Inl e)
    with one have "s1 = s" by (simp add: fit_unfold)
    with one two show ?thesis by simp
  next
    case (Inr pc)
    let ?pb = "OrthogonalProductPolynomialFactory pc (?ef s)"
    obtain A sc where cs: "choose_strategy ot ?pb (?ef s) ?st s = (A, sc)"
      by (cases "choose_strategy ot ?pb (?ef s) ?st s") blast
    obtain A' sc' where cs': "choose_strategy ot ?pb (?ef s) ?st s1 = (A', sc')"
      by (cases "choose_strategy ot ?pb (?ef s) ?st s1") blast
    from cs cs' choose_strategy_fst [of ot ?pb "?ef s" ?st s s1] have A': "A' = A" by simp
    note f = choose_strategy_frame [OF cs] and f' = choose_strategy_frame [OF cs']
    show ?thesis
    proof (cases "description Y")
      case Nil
      with one Inr cs have "r1 = Inl IndexError" by (simp_all add: fit_unfold)
      moreover from two Inr cs' Nil fr have "r2 = Inl IndexError" "s2 = sc'"
        by (simp_all add: fit_unfold)
      ultimately show ?thesis using f' by simp
    next
      case (Cons oo rest)
      show ?thesis
      proof (cases A)
        case None
        with one Inr cs Cons have "r1 = Inl UnboundLocalError" by (simp add: fit_unfold)
        moreover from two Inr cs' Cons fr None A' have "r2 = Inl UnboundLocalError" "s2 = sc'"
          by (simp_all add: fit_unfold)
        ultimately show ?thesis using f' by simp
      next
        case (Some strat)
        show ?thesis
        proof (cases "run ot X Y (distribution s) strat")
          case (Inl e)
          with one Inr cs Cons Some have "r1 = Inl e" by (simp add: fit_unfold)
          moreover from two Inr cs' Cons fr Some A' Inl have "r2 = Inl e"
            "s2 = sc'\<lparr>runs := runs s1 @ [(X, Y, distribution s, strat)]\<rparr>"
            by (simp_all add: fit_unfold)
          ultimately show ?thesis using f' by simp
        next
          case res: (Inr result)
          from one Inr cs Cons Some res have 1:
            "store_and_read ot (sc\<lparr>runs := runs s @ [(X, Y, distribution s, strat)]\<rparr>)
               oo result verbose = (r1, s1)"
            by (simp add: fit_unfold)
          from two Inr cs' Cons fr Some A' res have 2:
            "store_and_read ot (sc'\<lparr>runs := runs s1 @ [(X, Y, distribution s, strat)]\<rparr>)
               oo result verbose = (r2, s2)"
            by (simp add: fit_unfold)
          from f f' fr show ?thesis
            by (intro store_and_read_twice [OF 1 2]) simp_all
        qed
      qed
    qed
  qed
qed

lemma demo_fit:
  "u_computeChaosSensitivity demo_ot demo_self demo_X demo_Y (Some ''fixed'') (Some 1) False =
     (Inr ([5 / 10], [5 / 10]),
      demo_self\<lparr>chaosSI := Some [''y'' \<mapsto> FunctionalChaosSobolIndices (5 / 10)],
                metamodel := Some [''y'' \<mapsto> getMetaModel (5 / 10)],
                stdout := [[PStr ''indexMax'', PNat 3]],
                runs := [(demo_X, demo_Y, [(0, 1)], demo_fixed)]\<rparr>)"
  by (simp add: demo_self_def demo_new_def demo_ot_def demo_X_def demo_Y_def
      u_computeChaosSensitivity_def build_productBasis_def choose_strategy_def store_and_read_def read_indices_def
      demo_run_def demo_index_def demo_cardinal_2 demo_fixed_def Let_def)

lemma choose_strategy_stdout:
  "choose_strategy ot pb ef strategy s = (A, s1) \<Longrightarrow> \<exists>printed. stdout s1 = stdout s @ printed"
  by (auto simp: choose_strategy_def Let_def split: if_splits)

lemma store_and_read_effect:
  assumes "store_and_read ot t oo result verbose = (r, s')"
  shows "(\<forall>k. k \<noteq> oo \<longrightarrow>
            map_option (\<lambda>m. m k) (metamodel s') = map_option (\<lambda>m. m k) (metamodel t) \<and>
            map_option (\<lambda>m. m k) (chaosSI s') = map_option (\<lambda>m. m k) (chaosSI t)) \<and>
         (\<exists>printed. stdout s' = stdout t @ printed) \<and>
         (\<forall>p. r = Inr p \<longrightarrow>
            (\<exists>mm si. metamodel t = Some mm \<and>
               metamodel s' = Some (mm(oo \<mapsto> getMetaModel result)) \<and>
               chaosSI t = Some si \<and>
               chaosSI s' = Some (si(oo \<mapsto> FunctionalChaosSobolIndices result))))"
  using assms
  by (auto simp: store_and_read_def Let_def split: option.splits if_splits)





lemma index_list_Inr:
  "index_list f is = Inr vs \<longleftrightarrow>
     length vs = length is \<and> (\<forall>k < length is. f (is ! k) = Inr (vs ! k))"
proof (induction "is" arbitrary: vs)
  case Nil
  then show ?case by auto
next
  case (Cons i "is")
  show ?case
  proof (cases vs)
    case Nil
    then show ?thesis by (auto split: sum.splits)
  next
    case (Cons v vs')
    have "index_list f (i # is) = Inr (v # vs') \<longleftrightarrow> f i = Inr v \<and> index_list f is = Inr vs'"
      by (auto split: sum.splits)
    also have "\<dots> \<longleftrightarrow> f i = Inr v \<and> length vs' = length is \<and>
        (\<forall>k < length is. f (is ! k) = Inr (vs' ! k))"
      using Cons.IH [of vs'] by simp
    also have "\<dots> \<longleftrightarrow> length (v # vs') = length (i # is) \<and>
        (\<forall>k < length (i # is). f ((i # is) ! k) = Inr ((v # vs') ! k))"
      by (auto simp: nth_Cons split: nat.splits)
    finally show ?thesis using Cons by simp
  qed
qed

lemma index_list_Inl:
  "index_list f is = Inl e \<Longrightarrow> \<exists>i \<in> set is. f i = Inl e"
  by (induction "is") (auto split: sum.splits)

lemma read_indices_Inr:
  "read_indices ot d csi = Inr (a, b) \<longleftrightarrow>
     length a = d \<and> length b = d \<and>
     (\<forall>i < d. getSobolIndex ot csi i = Inr (a ! i) \<and> getSobolTotalIndex ot csi i = Inr (b ! i))"
proof -
  have "read_indices ot d csi = Inr (a, b) \<longleftrightarrow>
      index_list (getSobolIndex ot csi) [0..<d] = Inr a \<and>
      index_list (getSobolTotalIndex ot csi) [0..<d] = Inr b"
    by (auto simp: read_indices_def split: sum.splits)
  then show ?thesis by (auto simp: index_list_Inr)
qed

lemma read_indices_Inl:
  assumes "read_indices ot d csi = Inl e"
  shows "\<exists>i < d. getSobolIndex ot csi i = Inl e \<or> getSobolTotalIndex ot csi i = Inl e"
proof -
  from assms have "index_list (getSobolIndex ot csi) [0..<d] = Inl e \<or>
      index_list (getSobolTotalIndex ot csi) [0..<d] = Inl e"
    by (auto simp: read_indices_def split: sum.splits)
  then show ?thesis using index_list_Inl by fastforce
qed

lemma demo_variance_const: "demo_variance demo_Y_const = 0"
  by (simp add: demo_variance_def demo_Y_const_def)

lemma demo_Y_const_description: "description demo_Y_const = [''y'']"
  by (simp add: demo_Y_const_def)

section \<open>The confidence interval\<close>

lemma ci_loop_Cons:
  "ci_loop ot fo to alpha (i # is) (a, b, c, d) = Inr r \<longleftrightarrow>
   (\<exists>qa qb qc qd. i < dimension fo \<and> i < dimension to \<and>
      quantile_of ot fo i ((1 - alpha) / 2) = Inr qa \<and>
      quantile_of ot fo i (1 - (1 - alpha) / 2) = Inr qb \<and>
      quantile_of ot to i ((1 - alpha) / 2) = Inr qc \<and>
      quantile_of ot to i (1 - (1 - alpha) / 2) = Inr qd \<and>
      ci_loop ot fo to alpha is (a[i := qa], b[i := qb], c[i := qc], d[i := qd]) = Inr r)"
  by (simp add: quantile_of_def column_def Let_def split: sum.split)

lemma ci_loop_inv:
  "ci_loop ot fo to alpha is (a, b, c, d) = Inr (a', b', c', d') \<Longrightarrow> distinct is \<Longrightarrow>
   (length a' = length a \<and> length b' = length b \<and> length c' = length c \<and> length d' = length d) \<and>
   (\<forall>i \<in> set is. i < length a \<and> i < length b \<and> i < length c \<and> i < length d \<longrightarrow>
      quantile_of ot fo i ((1 - alpha) / 2) = Inr (a' ! i) \<and>
      quantile_of ot fo i (1 - (1 - alpha) / 2) = Inr (b' ! i) \<and>
      quantile_of ot to i ((1 - alpha) / 2) = Inr (c' ! i) \<and>
      quantile_of ot to i (1 - (1 - alpha) / 2) = Inr (d' ! i)) \<and>
   (\<forall>i. i \<notin> set is \<longrightarrow> a' ! i = a ! i \<and> b' ! i = b ! i \<and> c' ! i = c ! i \<and> d' ! i = d ! i)"
proof (induction "is" arbitrary: a b c d)
  case Nil
  then show ?case by simp
next
  case (Cons i "is")
  from Cons.prems(1) obtain qa qb qc qd where
    q: "quantile_of ot fo i ((1 - alpha) / 2) = Inr qa"
       "quantile_of ot fo i (1 - (1 - alpha) / 2) = Inr qb"
       "quantile_of ot to i ((1 - alpha) / 2) = Inr qc"
       "quantile_of ot to i (1 - (1 - alpha) / 2) = Inr qd"
    and rec: "ci_loop ot fo to alpha is (a[i := qa], b[i := qb], c[i := qc], d[i := qd]) = Inr (a', b', c', d')"
    unfolding ci_loop_Cons by blast
  from Cons.prems(2) have d: "distinct is" and ni: "i \<notin> set is" by simp_all
  note IH = Cons.IH [OF rec d]
  from IH have len: "length a' = length a \<and> length b' = length b \<and> length c' = length c \<and> length d' = length d"
    by simp
  from IH ni have at_i: "a' ! i = a[i := qa] ! i" "b' ! i = b[i := qb] ! i"
      "c' ! i = c[i := qc] ! i" "d' ! i = d[i := qd] ! i"
    by blast+
  have old: "\<forall>j. j \<notin> set (i # is) \<longrightarrow> a' ! j = a ! j \<and> b' ! j = b ! j \<and> c' ! j = c ! j \<and> d' ! j = d ! j"
  proof (intro allI impI)
    fix j assume "j \<notin> set (i # is)"
    then have "j \<noteq> i" "j \<notin> set is" by simp_all
    with IH show "a' ! j = a ! j \<and> b' ! j = b ! j \<and> c' ! j = c ! j \<and> d' ! j = d ! j"
      by simp
  qed
  have new: "\<forall>j \<in> set (i # is). j < length a \<and> j < length b \<and> j < length c \<and> j < length d \<longrightarrow>
      quantile_of ot fo j ((1 - alpha) / 2) = Inr (a' ! j) \<and>
      quantile_of ot fo j (1 - (1 - alpha) / 2) = Inr (b' ! j) \<and>
      quantile_of ot to j ((1 - alpha) / 2) = Inr (c' ! j) \<and>
      quantile_of ot to j (1 - (1 - alpha) / 2) = Inr (d' ! j)"
  proof (intro ballI impI)
    fix j assume j: "j \<in> set (i # is)"
      and l: "j < length a \<and> j < length b \<and> j < length c \<and> j < length d"
    show "quantile_of ot fo j ((1 - alpha) / 2) = Inr (a' ! j) \<and>
      quantile_of ot fo j (1 - (1 - alpha) / 2) = Inr (b' ! j) \<and>
      quantile_of ot to j ((1 - alpha) / 2) = Inr (c' ! j) \<and>
      quantile_of ot to j (1 - (1 - alpha) / 2) = Inr (d' ! j)"
    proof (cases "j = i")
      case True
      with l q at_i show ?thesis by simp
    next
      case False
      with j have "j \<in> set is" by simp
      with IH l show ?thesis by simp
    qed
  qed
  from len new old show ?case by blast
qed

lemma ci_loop_total:
  "\<forall>i \<in> set is. i < dimension fo \<and> i < dimension to \<and>
      (\<exists>v. quantile_of ot fo i ((1 - alpha) / 2) = Inr v) \<and>
      (\<exists>v. quantile_of ot fo i (1 - (1 - alpha) / 2) = Inr v) \<and>
      (\<exists>v. quantile_of ot to i ((1 - alpha) / 2) = Inr v) \<and>
      (\<exists>v. quantile_of ot to i (1 - (1 - alpha) / 2) = Inr v) \<Longrightarrow>
   \<exists>r. ci_loop ot fo to alpha is acc = Inr r"
proof (induction "is" arbitrary: acc)
  case Nil
  show ?case by (rule exI [of _ acc]) simp
next
  case (Cons i "is")
  obtain a b c d where acc: "acc = (a, b, c, d)" using prod_cases4 by blast
  from Cons.prems obtain qa qb qc qd where
    q: "quantile_of ot fo i ((1 - alpha) / 2) = Inr qa"
       "quantile_of ot fo i (1 - (1 - alpha) / 2) = Inr qb"
       "quantile_of ot to i ((1 - alpha) / 2) = Inr qc"
       "quantile_of ot to i (1 - (1 - alpha) / 2) = Inr qd"
    and lt: "i < dimension fo" "i < dimension to"
    by (meson list.set_intros(1))
  from Cons.prems have "\<exists>r. ci_loop ot fo to alpha is (a[i := qa], b[i := qb], c[i := qc], d[i := qd]) = Inr r"
    by (intro Cons.IH) simp
  with q lt show ?case
    unfolding acc ci_loop_Cons by blast
qed

lemma add_point_shape:
  "add_point Z p = Inr Z' \<Longrightarrow> dimension Z' = dimension Z \<and> description Z' = description Z"
  by (auto simp: add_point_def split: if_splits)

lemma bootstrap_loop_shape:
  "bootstrap_loop ot n X Y unit_eps (fo, to) s = (Inr (fo', to'), s') \<Longrightarrow>
   dimension fo' = dimension fo \<and> description fo' = description fo \<and>
   dimension to' = dimension to \<and> description to' = description to"
proof (induction n arbitrary: fo to s)
  case 0
  then show ?case by simp
next
  case (Suc n)
  from Suc.prems show ?case
  proof (cases rule: bootstrap_loop_Suc_cases)
    case (discard X_boot Y_boot g a b s1)
    from Suc.IH [OF discard(4)] show ?thesis .
  next
    case (retain X_boot Y_boot g a b s1 fo1 to1)
    from Suc.IH [OF retain(7)] add_point_shape [OF retain(5)] add_point_shape [OF retain(6)]
    show ?thesis by simp
  qed simp_all
qed

lemma empty_sample:
  "rows Z = [] \<Longrightarrow> dimension Z = d \<Longrightarrow> description Z = default_description d \<Longrightarrow>
   Z = Sample0 d"
  by (cases Z) (simp add: Sample0_def)

lemma ci_loop_empty_Inl:
  assumes "0 < d"
    and "computeQuantile ot [] ((1 - alpha) / 2) = Inl e"
  shows "ci_loop ot (Sample0 d) (Sample0 d) alpha [0..<d] acc = Inl e"
proof -
  obtain a b c d' where acc: "acc = (a, b, c, d')" using prod_cases4 by blast
  from assms(1) have "[0..<d] = 0 # [1..<d]" by (simp add: upt_conv_Cons)
  with assms show ?thesis
    by (simp add: acc column_def Sample0_def)
qed

lemma ci_loop_empty_Inl2:
  assumes "0 < d"
    and "computeQuantile ot [] ((1 - alpha) / 2) = Inr lo"
    and "computeQuantile ot [] (1 - (1 - alpha) / 2) = Inl e"
  shows "ci_loop ot (Sample0 d) (Sample0 d) alpha [0..<d] acc = Inl e"
proof -
  obtain a b c d' where acc: "acc = (a, b, c, d')" using prod_cases4 by blast
  from assms(1) have "[0..<d] = 0 # [1..<d]" by (simp add: upt_conv_Cons)
  with assms show ?thesis
    by (simp add: acc column_def Sample0_def)
qed

lemma ci_empty_Inr:
  assumes "computeQuantile ot [] ((1 - 95 / 100) / 2) = Inr lo"
    and "computeQuantile ot [] (1 - (1 - 95 / 100) / 2) = Inr hi"
  shows "computeSobolIndicesConfidenceInterval ot (Sample0 d) (Sample0 d) None =
     Inr (Interval (replicate d lo) (replicate d hi), Interval (replicate d lo) (replicate d hi))"
proof -
  have q: "quantile_of ot (Sample0 d) i p = computeQuantile ot [] p" for i p
    by (simp add: quantile_of_def Sample0_def)
  have h1: "(95 / 100 :: real) = (case None of None \<Rightarrow> 95 / 100 | Some a \<Rightarrow> a)" by simp
  have h3: "dimension (Sample0 d) = dimension (Sample0 d)" by simp
  have h4: "\<forall>i < dimension (Sample0 d).
           (\<exists>v. quantile_of ot (Sample0 d) i ((1 - 95 / 100) / 2) = Inr v) \<and>
           (\<exists>v. quantile_of ot (Sample0 d) i (1 - (1 - 95 / 100) / 2) = Inr v) \<and>
           (\<exists>v. quantile_of ot (Sample0 d) i ((1 - 95 / 100) / 2) = Inr v) \<and>
           (\<exists>v. quantile_of ot (Sample0 d) i (1 - (1 - 95 / 100) / 2) = Inr v)"
    unfolding q using assms by simp
  let ?z = "replicate d (0::real)"
  have "\<forall>i \<in> set [0..<d]. i < dimension (Sample0 d) \<and> i < dimension (Sample0 d) \<and>
      (\<exists>v. quantile_of ot (Sample0 d) i ((1 - 95 / 100) / 2) = Inr v) \<and>
      (\<exists>v. quantile_of ot (Sample0 d) i (1 - (1 - 95 / 100) / 2) = Inr v) \<and>
      (\<exists>v. quantile_of ot (Sample0 d) i ((1 - 95 / 100) / 2) = Inr v) \<and>
      (\<exists>v. quantile_of ot (Sample0 d) i (1 - (1 - 95 / 100) / 2) = Inr v)"
    unfolding q using assms by (simp add: Sample0_def)
  from ci_loop_total [OF this] obtain a b c e where
    run: "ci_loop ot (Sample0 d) (Sample0 d) (95 / 100) [0..<d] (?z, ?z, ?z, ?z) = Inr (a, b, c, e)"
    using prod_cases4 by metis
  note inv = ci_loop_inv [OF run distinct_upt]
  from inv have len: "length a = d" "length b = d" "length c = d" "length e = d"
    by simp_all
  note mid = inv [THEN conjunct2, THEN conjunct1, unfolded q assms]
  have nth: "\<forall>i < d. a ! i = lo \<and> b ! i = hi \<and> c ! i = lo \<and> e ! i = hi"
  proof (intro allI impI)
    fix i assume "i < d"
    then have "i \<in> set [0..<d]" "i < length ?z" by simp_all
    with mid have "Inr lo = (Inr (a ! i) :: exn + real) \<and> Inr hi = (Inr (b ! i) :: exn + real) \<and>
        Inr lo = (Inr (c ! i) :: exn + real) \<and> Inr hi = (Inr (e ! i) :: exn + real)"
      by blast
    then show "a ! i = lo \<and> b ! i = hi \<and> c ! i = lo \<and> e ! i = hi" by simp
  qed
  from len nth have "a = replicate d lo" "b = replicate d hi" "c = replicate d lo"
    "e = replicate d hi"
    by (simp_all add: list_eq_iff_nth_eq)
  with run show ?thesis
    by (simp add: computeSobolIndicesConfidenceInterval_def Sample0_def)
qed

lemma ci_empty:
  assumes "0 < d"
  shows "computeSobolIndicesConfidenceInterval ot (Sample0 d) (Sample0 d) None =
     (case computeQuantile ot [] (1 / 40) of
        Inl e \<Rightarrow> Inl e
      | Inr lo \<Rightarrow>
         (case computeQuantile ot [] (39 / 40) of
            Inl e \<Rightarrow> Inl e
          | Inr hi \<Rightarrow>
              Inr (Interval (replicate d lo) (replicate d hi),
                   Interval (replicate d lo) (replicate d hi))))"
proof -
  have b: "(1 - 95 / 100) / 2 = (1 / 40 :: real)" "1 - (1 - 95 / 100) / 2 = (39 / 40 :: real)"
    by simp_all
  show ?thesis
  proof (cases "computeQuantile ot [] (1 / 40)")
    case (Inl e)
    with ci_loop_empty_Inl [OF assms, of ot "95 / 100" e] show ?thesis
      unfolding b by (simp add: computeSobolIndicesConfidenceInterval_def Sample0_def)
  next
    case lo: (Inr lo)
    show ?thesis
    proof (cases "computeQuantile ot [] (39 / 40)")
      case (Inl e)
      with lo ci_loop_empty_Inl2 [OF assms, of ot "95 / 100" lo e] show ?thesis
        unfolding b by (simp add: computeSobolIndicesConfidenceInterval_def Sample0_def)
    next
      case (Inr hi)
      with lo ci_empty_Inr [of ot lo hi d] show ?thesis
        unfolding b by simp
    qed
  qed
qed

lemma demo_loop_out:
  "bootstrap_loop demo_ot 2 demo_X demo_Y_out (unit_eps_of 1) (Sample0 1, Sample0 1)
     (banner True ''y'' demo_self_out) =
   (Inr (Sample0 1, Sample0 1),
    snd (bootstrap_loop demo_ot 2 demo_X demo_Y_out (unit_eps_of 1) (Sample0 1, Sample0 1)
           (banner True ''y'' demo_self_out)))"
proof -
  have "fst (bootstrap_loop demo_ot 2 demo_X demo_Y_out (unit_eps_of 1) (Sample0 1, Sample0 1)
     (banner True ''y'' demo_self_out)) = Inr (Sample0 1, Sample0 1)"
    by (simp add: numeral_2_eq_2 multiBootstrap_two demo_ot_def demo_selection_def demo_X_def
      demo_Y_out_def getSize_def select_def u_computeChaosSensitivity_def build_productBasis_def
      demo_self_def demo_new_def demo_self_out_def banner_def
      choose_strategy_def store_and_read_def read_indices_def demo_run_def demo_index_def
      unit_eps_of_def Sample0_def add_point_def Let_def)
  then show ?thesis by (metis prod.collapse)
qed

text \<open>
  Claim C1. \<^verbatim>\<open>computeSobolIndicesConfidenceInterval\<close> returns, for the first-order and
  for the total-order sample and for every input dimension \<open>i\<close>, the library's quantiles
  of the values of column \<open>i\<close> at the levels \<open>beta\<close> and \<open>1 - beta\<close>, where
  \<open>beta = (1 - alpha) / 2\<close> and \<open>alpha\<close> is the requested level, 0.95 when none is
  given. The two samples have the same dimension and the library's quantile returns on
  every column; the call then returns, with bounds for each dimension.
\<close>

theorem confidence_interval_quantiles:
  assumes "alpha = (case alpha_arg of None \<Rightarrow> 95 / 100 | Some a \<Rightarrow> a)"
    and "beta = (1 - alpha) / 2"
    and "dimension to_sample = dimension fo_sample"
    and "\<forall>i < dimension fo_sample.
           (\<exists>v. quantile_of ot fo_sample i beta = Inr v) \<and>
           (\<exists>v. quantile_of ot fo_sample i (1 - beta) = Inr v) \<and>
           (\<exists>v. quantile_of ot to_sample i beta = Inr v) \<and>
           (\<exists>v. quantile_of ot to_sample i (1 - beta) = Inr v)"
  shows "\<exists>fo_lb fo_ub to_lb to_ub.
           computeSobolIndicesConfidenceInterval ot fo_sample to_sample alpha_arg =
             Inr (Interval fo_lb fo_ub, Interval to_lb to_ub) \<and>
           length fo_lb = dimension fo_sample \<and> length fo_ub = dimension fo_sample \<and>
           length to_lb = dimension fo_sample \<and> length to_ub = dimension fo_sample \<and>
           (\<forall>i < dimension fo_sample.
              quantile_of ot fo_sample i beta = Inr (fo_lb ! i) \<and>
              quantile_of ot fo_sample i (1 - beta) = Inr (fo_ub ! i) \<and>
              quantile_of ot to_sample i beta = Inr (to_lb ! i) \<and>
              quantile_of ot to_sample i (1 - beta) = Inr (to_ub ! i))"
proof -
  let ?d = "dimension fo_sample"
  let ?z = "replicate ?d (0::real)"
  have "\<exists>r. ci_loop ot fo_sample to_sample alpha [0..<?d] (?z, ?z, ?z, ?z) = Inr r"
    using assms(3,4) unfolding assms(2) by (intro ci_loop_total) simp
  then obtain a b c d where
    run: "ci_loop ot fo_sample to_sample alpha [0..<?d] (?z, ?z, ?z, ?z) = Inr (a, b, c, d)"
    using prod_cases4 by metis
  note inv = ci_loop_inv [OF run distinct_upt]
  have res: "computeSobolIndicesConfidenceInterval ot fo_sample to_sample alpha_arg =
      Inr (Interval a b, Interval c d)"
    using run assms(1) by (simp add: computeSobolIndicesConfidenceInterval_def)
  have len: "length a = ?d" "length b = ?d" "length c = ?d" "length d = ?d"
    using inv by simp_all
  have q: "\<forall>i < ?d.
      quantile_of ot fo_sample i beta = Inr (a ! i) \<and>
      quantile_of ot fo_sample i (1 - beta) = Inr (b ! i) \<and>
      quantile_of ot to_sample i beta = Inr (c ! i) \<and>
      quantile_of ot to_sample i (1 - beta) = Inr (d ! i)"
    using inv unfolding assms(2) by simp
  from res len q show ?thesis by blast
qed

theorem confidence_interval_quantiles_witness:
  "computeSobolIndicesConfidenceInterval demo_ot
     \<lparr>rows = [[2 / 10], [4 / 10], [3 / 10]], dimension = 1, description = []\<rparr>
     \<lparr>rows = [[5 / 10], [7 / 10], [6 / 10]], dimension = 1, description = []\<rparr>
     None
   = Inr (Interval [2 / 10] [4 / 10], Interval [5 / 10] [7 / 10])"
proof -
  let ?fo = "\<lparr>rows = [[2 / 10], [4 / 10], [3 / 10]], dimension = 1, description = []\<rparr>"
  let ?to = "\<lparr>rows = [[5 / 10], [7 / 10], [6 / 10]], dimension = 1, description = []\<rparr>"
  have h1: "(95 / 100 :: real) = (case None of None \<Rightarrow> 95 / 100 | Some a \<Rightarrow> a)" by simp
  have h2: "(1 / 40 :: real) = (1 - 95 / 100) / 2" by simp
  have h3: "dimension ?to = dimension ?fo" by simp
  have e: "quantile_of demo_ot ?fo 0 (1 / 40) = Inr (2 / 10)"
    "quantile_of demo_ot ?fo 0 (1 - 1 / 40) = Inr (4 / 10)"
    "quantile_of demo_ot ?to 0 (1 / 40) = Inr (5 / 10)"
    "quantile_of demo_ot ?to 0 (1 - 1 / 40) = Inr (7 / 10)"
    by (simp_all add: quantile_of_def demo_ot_def demo_quantile_def)
  have h4: "\<forall>i < dimension ?fo.
           (\<exists>v. quantile_of demo_ot ?fo i (1 / 40) = Inr v) \<and>
           (\<exists>v. quantile_of demo_ot ?fo i (1 - 1 / 40) = Inr v) \<and>
           (\<exists>v. quantile_of demo_ot ?to i (1 / 40) = Inr v) \<and>
           (\<exists>v. quantile_of demo_ot ?to i (1 - 1 / 40) = Inr v)"
  proof (intro allI impI)
    fix i :: nat
    assume "i < dimension ?fo"
    then have i0: "i = 0" by simp
    show "(\<exists>v. quantile_of demo_ot ?fo i (1 / 40) = Inr v) \<and>
           (\<exists>v. quantile_of demo_ot ?fo i (1 - 1 / 40) = Inr v) \<and>
           (\<exists>v. quantile_of demo_ot ?to i (1 / 40) = Inr v) \<and>
           (\<exists>v. quantile_of demo_ot ?to i (1 - 1 / 40) = Inr v)"
      unfolding i0 using e by blast
  qed
  from confidence_interval_quantiles [OF h1 h2 h3 h4]
  obtain a b c d where
    r: "computeSobolIndicesConfidenceInterval demo_ot ?fo ?to None =
          Inr (Interval a b, Interval c d)"
    and l: "length a = 1" "length b = 1" "length c = 1" "length d = 1"
    and q: "quantile_of demo_ot ?fo 0 (1 / 40) = Inr (a ! 0)"
       "quantile_of demo_ot ?fo 0 (1 - 1 / 40) = Inr (b ! 0)"
       "quantile_of demo_ot ?to 0 (1 / 40) = Inr (c ! 0)"
       "quantile_of demo_ot ?to 0 (1 - 1 / 40) = Inr (d ! 0)"
    by auto
  from q have v: "a ! 0 = 2 / 10" "b ! 0 = 4 / 10" "c ! 0 = 5 / 10" "d ! 0 = 7 / 10"
    unfolding e by simp_all
  from l v have "a = [2 / 10]" "b = [4 / 10]" "c = [5 / 10]" "d = [7 / 10]"
    by (cases a; cases b; cases c; cases d; simp)+
  with r show ?thesis by simp
qed

section \<open>The resample\<close>

text \<open>
  Claim C2. Every iteration of the bootstrap draws one selection of row indices with the
  library's \<^verbatim>\<open>GenerateSelection(N, N)\<close>, \<open>N\<close> the number of rows of the design matrix,
  and applies that one selection to the design matrix and to the response: for every fit
  the loop runs, the two samples handed to it are \<open>X[selection]\<close> and \<open>Y[selection]\<close>
  for the same selection, so row \<open>k\<close> of both is row \<open>selection[k]\<close> of the original
  data. The selection has \<open>N\<close> indices, as the library returns for that call, and an
  index may occur in it more than once.
\<close>

theorem resample_keeps_pairs:
  assumes "bootstrap_loop ot B X Y unit_eps acc s = (r, s')"
    and "\<forall>g. length (fst (GenerateSelection ot (getSize X) (getSize X) g)) = getSize X"
  shows "\<exists>new. runs s' = runs s @ new \<and>
     (\<forall>c \<in> set new. \<exists>selection X_boot Y_boot m strat.
         c = (X_boot, Y_boot, m, strat) \<and>
         (\<exists>g g'. GenerateSelection ot (getSize X) (getSize X) g = (selection, g')) \<and>
         length selection = getSize X \<and>
         select X selection = Inr X_boot \<and> select Y selection = Inr Y_boot \<and>
         getSize X_boot = getSize X \<and> getSize Y_boot = getSize X \<and>
         (\<forall>k < getSize X.
            selection ! k < getSize X \<and> selection ! k < getSize Y \<and>
            rows X_boot ! k = rows X ! (selection ! k) \<and>
            rows Y_boot ! k = rows Y ! (selection ! k)))"
proof -
  from bootstrap_loop_trace [OF assms(1)] obtain new where
    new: "runs s' = runs s @ new" and dj: "\<forall>c \<in> set new. drawn_jointly ot X Y c"
    by blast
  have "\<exists>selection X_boot Y_boot m strat.
         c = (X_boot, Y_boot, m, strat) \<and>
         (\<exists>g g'. GenerateSelection ot (getSize X) (getSize X) g = (selection, g')) \<and>
         length selection = getSize X \<and>
         select X selection = Inr X_boot \<and> select Y selection = Inr Y_boot \<and>
         getSize X_boot = getSize X \<and> getSize Y_boot = getSize X \<and>
         (\<forall>k < getSize X.
            selection ! k < getSize X \<and> selection ! k < getSize Y \<and>
            rows X_boot ! k = rows X ! (selection ! k) \<and>
            rows Y_boot ! k = rows Y ! (selection ! k))"
    if c: "c \<in> set new" for c
  proof -
    obtain X_boot Y_boot m strat where ceq: "c = (X_boot, Y_boot, m, strat)"
      by (cases c) auto
    from dj c ceq obtain selection g g' where
      gen: "GenerateSelection ot (getSize X) (getSize X) g = (selection, g')"
      and sx: "select X selection = Inr X_boot" and sy: "select Y selection = Inr Y_boot"
      by (auto simp: drawn_jointly_def)
    from assms(2) gen have len: "length selection = getSize X"
      by (metis fst_conv)
    note px = select_Inr [OF sx] and py = select_Inr [OF sy]
    from px py len have sizes: "getSize X_boot = getSize X" "getSize Y_boot = getSize X"
      by simp_all
    from px py len have pairs: "\<forall>k < getSize X.
            selection ! k < getSize X \<and> selection ! k < getSize Y \<and>
            rows X_boot ! k = rows X ! (selection ! k) \<and>
            rows Y_boot ! k = rows Y ! (selection ! k)"
      by simp
    from ceq gen len sx sy sizes pairs show ?thesis by blast
  qed
  with new show ?thesis by blast
qed

theorem resample_keeps_pairs_witness:
  "bootstrap_loop demo_ot 2 demo_X demo_Y (unit_eps_of 1) (Sample0 1, Sample0 1) demo_self =
     (Inr (demo_retained, demo_retained), demo_after) \<and>
   (\<forall>g. length (fst (GenerateSelection demo_ot (getSize demo_X) (getSize demo_X) g)) =
        getSize demo_X) \<and>
   (\<exists>new. runs demo_after = runs demo_self @ new \<and> length new = 2 \<and>
      (\<forall>c \<in> set new. \<exists>selection.
          length selection = 3 \<and>
          select demo_X selection = Inr (fst c) \<and> select demo_Y selection = Inr (fst (snd c))))"
proof -
  have h: "\<forall>g. length (fst (GenerateSelection demo_ot (getSize demo_X) (getSize demo_X) g)) =
      getSize demo_X"
    by (simp add: demo_ot_def demo_selection_def)
  have n: "getSize demo_X = 3" by (simp add: getSize_def demo_X_def)
  from resample_keeps_pairs [OF demo_loop_2 h] obtain new where
    P: "runs demo_after = runs demo_self @ new \<and>
     (\<forall>c \<in> set new. \<exists>selection X_boot Y_boot m strat.
         c = (X_boot, Y_boot, m, strat) \<and>
         (\<exists>g g'. GenerateSelection demo_ot (getSize demo_X) (getSize demo_X) g = (selection, g')) \<and>
         length selection = getSize demo_X \<and>
         select demo_X selection = Inr X_boot \<and> select demo_Y selection = Inr Y_boot \<and>
         getSize X_boot = getSize demo_X \<and> getSize Y_boot = getSize demo_X \<and>
         (\<forall>k < getSize demo_X.
            selection ! k < getSize demo_X \<and> selection ! k < getSize demo_Y \<and>
            rows X_boot ! k = rows demo_X ! (selection ! k) \<and>
            rows Y_boot ! k = rows demo_Y ! (selection ! k)))" ..
  then have new: "runs demo_after = runs demo_self @ new" by (rule conjunct1)
  from new have "length new = 2"
    by (auto simp: demo_after_def demo_self_def demo_new_def)
  moreover have "\<forall>c \<in> set new. \<exists>selection.
          length selection = 3 \<and>
          select demo_X selection = Inr (fst c) \<and> select demo_Y selection = Inr (fst (snd c))"
  proof
    fix c assume "c \<in> set new"
    with P obtain selection X_boot Y_boot m strat where
      "c = (X_boot, Y_boot, m, strat)" "length selection = getSize demo_X"
      "select demo_X selection = Inr X_boot" "select demo_Y selection = Inr Y_boot"
      by (elim conjE bspec [elim_format]) auto
    with n show "\<exists>selection.
          length selection = 3 \<and>
          select demo_X selection = Inr (fst c) \<and> select demo_Y selection = Inr (fst (snd c))"
      by auto
  qed
  ultimately show ?thesis using h new demo_loop_2 by blast
qed

section \<open>The discarded replicates\<close>



section \<open>The strategy of the replicates\<close>

text \<open>
  Claim C10. Whatever strategy and \<open>q\<close> the point estimates of
  \<^verbatim>\<open>computeChaosSensitivity\<close> were computed with, every fit that a following
  \<^verbatim>\<open>computeBootstrapChaosSobolIndices\<close> runs is configured by the default arguments of
  \<^verbatim>\<open>_computeChaosSensitivity\<close>: the cleaning strategy with maximumDimension 200,
  maximumSize 20 and significanceFactor 1e-4, on a basis enumerated with \<open>q = 0.4\<close>.
\<close>

theorem replicates_use_default_cleaning:
  assumes "computeChaosSensitivity ot s0 strategy_arg q_arg = (r1, s1)"
    and "computeBootstrapChaosSobolIndices ot s1 B verbose_arg plot_arg = (r2, s2)"
  shows "\<exists>new. runs s2 = runs s1 @ new \<and>
           (\<forall>c \<in> set new. default_cleaning (length (input_names s0)) (snd (snd (snd c))))"
  using computeBootstrap_trace [OF assms(2)] computeChaosSensitivity_names [OF assms(1)]
  by simp

theorem replicates_use_default_cleaning_witness:
  "computeChaosSensitivity demo_ot demo_new (Some ''fixed'') (Some 1) = (Inr (), demo_point) \<and>
   (\<exists>new. runs (snd (computeBootstrapChaosSobolIndices demo_ot demo_point 2 (Some False)
                        (Some False))) = runs demo_point @ new \<and>
      (\<forall>c \<in> set new. default_cleaning (length (input_names demo_new)) (snd (snd (snd c))))) \<and>
   map (\<lambda>c. snd (snd (snd c)))
     (runs (snd (computeBootstrapChaosSobolIndices demo_ot demo_point 2 (Some False) (Some False))))
   = [demo_fixed, demo_cleaning, demo_cleaning]"
proof -
  have h2: "computeBootstrapChaosSobolIndices demo_ot demo_point 2 (Some False) (Some False) =
    (fst (computeBootstrapChaosSobolIndices demo_ot demo_point 2 (Some False) (Some False)),
     snd (computeBootstrapChaosSobolIndices demo_ot demo_point 2 (Some False) (Some False)))"
    by simp
  from replicates_use_default_cleaning [OF demo_point_estimates h2]
    demo_point_estimates demo_bootstrap_runs
  show ?thesis by blast
qed

section \<open>Fitting twice\<close>

text \<open>
  Claim C8. Running \<^verbatim>\<open>_computeChaosSensitivity\<close> a second time on the same design
  matrix, response and strategy arguments, from the state the first run left, gives the
  same outcome (the same first-order and total-order vectors, or the same exception) and
  stores the same metamodel and the same Sobol indices object: the outcome does not read
  what the first run wrote, nor the state of the random generator. The library's
  \<open>run\<close> is a function of its arguments in this model.
\<close>

theorem fit_twice_agrees:
  "fst (u_computeChaosSensitivity ot
          (snd (u_computeChaosSensitivity ot s X Y strategy_arg q_arg verbose))
          X Y strategy_arg q_arg verbose) =
   fst (u_computeChaosSensitivity ot s X Y strategy_arg q_arg verbose) \<and>
   metamodel (snd (u_computeChaosSensitivity ot
          (snd (u_computeChaosSensitivity ot s X Y strategy_arg q_arg verbose))
          X Y strategy_arg q_arg verbose)) =
   metamodel (snd (u_computeChaosSensitivity ot s X Y strategy_arg q_arg verbose)) \<and>
   chaosSI (snd (u_computeChaosSensitivity ot
          (snd (u_computeChaosSensitivity ot s X Y strategy_arg q_arg verbose))
          X Y strategy_arg q_arg verbose)) =
   chaosSI (snd (u_computeChaosSensitivity ot s X Y strategy_arg q_arg verbose))"
  by (rule fit_twice [OF prod.collapse [symmetric] prod.collapse [symmetric]])

theorem fit_twice_agrees_witness:
  "fst (u_computeChaosSensitivity demo_ot
          (snd (u_computeChaosSensitivity demo_ot demo_self demo_X demo_Y (Some ''fixed'')
                  (Some 1) False))
          demo_X demo_Y (Some ''fixed'') (Some 1) False) = Inr ([5 / 10], [5 / 10]) \<and>
   metamodel (snd (u_computeChaosSensitivity demo_ot
          (snd (u_computeChaosSensitivity demo_ot demo_self demo_X demo_Y (Some ''fixed'')
                  (Some 1) False))
          demo_X demo_Y (Some ''fixed'') (Some 1) False)) = Some [''y'' \<mapsto> getMetaModel (5 / 10)]"
  using fit_twice_agrees [of demo_ot demo_self demo_X demo_Y "Some ''fixed''" "Some 1" False]
  unfolding demo_fit by simp

section \<open>What a fit writes\<close>

text \<open>
  Claim C7, as the code has it. \<^verbatim>\<open>_computeChaosSensitivity\<close> returns the index vectors
  and writes to the analysis object: it stores the fitted metamodel in
  \<^verbatim>\<open>self.metamodel\<close> and the Sobol indices object in \<^verbatim>\<open>self.chaosSI\<close> under the name of
  the output, and it prints. In both dictionaries the entries of every other name are
  unchanged, as are the other attributes (input, output, distribution, the two samples,
  S1, ST, bootstrap) and the state of the random generator.
\<close>

theorem fit_writes_its_entries:
  assumes "u_computeChaosSensitivity ot s X Y strategy_arg q_arg verbose = (r, s')"
  shows "input_names s' = input_names s \<and> output_names s' = output_names s \<and>
     distribution s' = distribution s \<and> inputSample s' = inputSample s \<and>
     outputSample s' = outputSample s \<and> S1 s' = S1 s \<and> ST s' = ST s \<and>
     bootstrap s' = bootstrap s \<and> rng s' = rng s \<and>
     (\<forall>k. k \<notin> set (take 1 (description Y)) \<longrightarrow>
        map_option (\<lambda>m. m k) (metamodel s') = map_option (\<lambda>m. m k) (metamodel s) \<and>
        map_option (\<lambda>m. m k) (chaosSI s') = map_option (\<lambda>m. m k) (chaosSI s)) \<and>
     (\<exists>printed. stdout s' = stdout s @ printed) \<and>
     (\<forall>p. r = Inr p \<longrightarrow>
        (\<exists>oo rest strat result mm si.
           description Y = oo # rest \<and> run ot X Y (distribution s) strat = Inr result \<and>
           metamodel s = Some mm \<and> metamodel s' = Some (mm(oo \<mapsto> getMetaModel result)) \<and>
           chaosSI s = Some si \<and>
           chaosSI s' = Some (si(oo \<mapsto> FunctionalChaosSobolIndices result))))"
proof -
  note frame = fit_frame [OF assms]
  have rest: "(\<forall>k. k \<notin> set (take 1 (description Y)) \<longrightarrow>
        map_option (\<lambda>m. m k) (metamodel s') = map_option (\<lambda>m. m k) (metamodel s) \<and>
        map_option (\<lambda>m. m k) (chaosSI s') = map_option (\<lambda>m. m k) (chaosSI s)) \<and>
     (\<exists>printed. stdout s' = stdout s @ printed) \<and>
     (\<forall>p. r = Inr p \<longrightarrow>
        (\<exists>oo rest strat result mm si.
           description Y = oo # rest \<and> run ot X Y (distribution s) strat = Inr result \<and>
           metamodel s = Some mm \<and> metamodel s' = Some (mm(oo \<mapsto> getMetaModel result)) \<and>
           chaosSI s = Some si \<and>
           chaosSI s' = Some (si(oo \<mapsto> FunctionalChaosSobolIndices result))))"
  proof (cases rule: fit_cases [OF assms refl refl, case_names poly nodesc unbound runfail stored])
    case (poly e)
    then show ?thesis by simp
  next
    case (nodesc pc A s1)
    with choose_strategy_frame [OF nodesc(2)] choose_strategy_stdout [OF nodesc(2)]
    show ?thesis by simp
  next
    case (unbound pc s1 oo rest)
    with choose_strategy_frame [OF unbound(2)] choose_strategy_stdout [OF unbound(2)]
    show ?thesis by simp
  next
    case (runfail pc strat s1 oo rest e)
    with choose_strategy_frame [OF runfail(2)] choose_strategy_stdout [OF runfail(2)]
    show ?thesis by simp
  next
    case (stored pc strat s1 oo rest result)
    note f = choose_strategy_frame [OF stored(2)]
    from choose_strategy_stdout [OF stored(2)] obtain p1 where p1: "stdout s1 = stdout s @ p1"
      by blast
    note e = store_and_read_effect [OF stored(5)]
    from e obtain p2 where p2: "stdout s' = stdout s1 @ p2" by auto
    have 1: "\<forall>k. k \<notin> set (take 1 (description Y)) \<longrightarrow>
        map_option (\<lambda>m. m k) (metamodel s') = map_option (\<lambda>m. m k) (metamodel s) \<and>
        map_option (\<lambda>m. m k) (chaosSI s') = map_option (\<lambda>m. m k) (chaosSI s)"
      using e f stored(3) by simp
    have 2: "\<exists>printed. stdout s' = stdout s @ printed"
      using p1 p2 by simp
    have 3: "\<forall>p. r = Inr p \<longrightarrow>
        (\<exists>oo rest strat result mm si.
           description Y = oo # rest \<and> run ot X Y (distribution s) strat = Inr result \<and>
           metamodel s = Some mm \<and> metamodel s' = Some (mm(oo \<mapsto> getMetaModel result)) \<and>
           chaosSI s = Some si \<and>
           chaosSI s' = Some (si(oo \<mapsto> FunctionalChaosSobolIndices result)))"
    proof (intro allI impI)
      fix p assume "r = Inr p"
      with e f obtain mm si where
        "metamodel s = Some mm" "metamodel s' = Some (mm(oo \<mapsto> getMetaModel result))"
        "chaosSI s = Some si" "chaosSI s' = Some (si(oo \<mapsto> FunctionalChaosSobolIndices result))"
        by auto
      with stored(3,4) show "\<exists>oo rest strat result mm si.
           description Y = oo # rest \<and> run ot X Y (distribution s) strat = Inr result \<and>
           metamodel s = Some mm \<and> metamodel s' = Some (mm(oo \<mapsto> getMetaModel result)) \<and>
           chaosSI s = Some si \<and>
           chaosSI s' = Some (si(oo \<mapsto> FunctionalChaosSobolIndices result))"
        by blast
    qed
    from 1 2 3 show ?thesis by blast
  qed
  with frame show ?thesis by simp
qed

theorem fit_writes_its_entries_witness:
  "u_computeChaosSensitivity demo_ot demo_self demo_X demo_Y (Some ''fixed'') (Some 1) False =
     (Inr ([5 / 10], [5 / 10]),
      demo_self\<lparr>chaosSI := Some [''y'' \<mapsto> FunctionalChaosSobolIndices (5 / 10)],
                metamodel := Some [''y'' \<mapsto> getMetaModel (5 / 10)],
                stdout := [[PStr ''indexMax'', PNat 3]],
                runs := [(demo_X, demo_Y, [(0, 1)], demo_fixed)]\<rparr>) \<and>
   (\<exists>oo rest strat result mm si.
      description demo_Y = oo # rest \<and>
      run demo_ot demo_X demo_Y (distribution demo_self) strat = Inr result \<and>
      metamodel demo_self = Some mm \<and>
      Some [''y'' \<mapsto> getMetaModel (5 / 10)] = Some (mm(oo \<mapsto> getMetaModel result)) \<and>
      chaosSI demo_self = Some si \<and>
      Some [''y'' \<mapsto> FunctionalChaosSobolIndices (5 / 10)] =
        Some (si(oo \<mapsto> FunctionalChaosSobolIndices result)))"
  using fit_writes_its_entries [OF demo_fit] demo_fit by simp

text \<open>
  The claim as stated, that a fit leaves the stored metamodel and sensitivity records
  unchanged, fails: after one fit on the small instance both dictionaries have an entry
  for \<open>y\<close> and a line has been printed.
\<close>

theorem fit_changes_the_object:
  "metamodel (snd (u_computeChaosSensitivity demo_ot demo_self demo_X demo_Y (Some ''fixed'')
                     (Some 1) False)) \<noteq> metamodel demo_self \<and>
   chaosSI (snd (u_computeChaosSensitivity demo_ot demo_self demo_X demo_Y (Some ''fixed'')
                     (Some 1) False)) \<noteq> chaosSI demo_self \<and>
   stdout (snd (u_computeChaosSensitivity demo_ot demo_self demo_X demo_Y (Some ''fixed'')
                     (Some 1) False)) \<noteq> stdout demo_self"
  unfolding demo_fit by (simp add: demo_self_def demo_new_def)

section \<open>The fixed strategy\<close>







section \<open>The extraction of the indices\<close>

text \<open>
  Claim C5, as the code has it. From the result of the fit on, \<^verbatim>\<open>_computeChaosSensitivity\<close>
  checks nothing about the variance of the surrogate: it returns two vectors exactly
  when the library's \<^verbatim>\<open>getSobolIndex\<close> and \<^verbatim>\<open>getSobolTotalIndex\<close> return for every
  input, and the vectors hold the values they return; it raises only an exception that
  one of these calls raises.
\<close>

theorem extraction_returns_library_values:
  assumes "metamodel t = Some mm" and "chaosSI t = Some si"
    and "d = length (input_names t)"
    and "csi = FunctionalChaosSobolIndices result"
  shows "(fst (store_and_read ot t oo result verbose) = Inr (a, b) \<longleftrightarrow>
            length a = d \<and> length b = d \<and>
            (\<forall>i < d. getSobolIndex ot csi i = Inr (a ! i) \<and>
                      getSobolTotalIndex ot csi i = Inr (b ! i))) \<and>
         (fst (store_and_read ot t oo result verbose) = Inl e \<longrightarrow>
            (\<exists>i < d. getSobolIndex ot csi i = Inl e \<or> getSobolTotalIndex ot csi i = Inl e))"
proof -
  from store_and_read_Some [OF assms(1,2), of ot oo result verbose] assms(3,4)
  have "fst (store_and_read ot t oo result verbose) = read_indices ot d csi" by simp
  then show ?thesis using read_indices_Inr [of ot d csi a b] read_indices_Inl [of ot d csi e]
    by simp
qed

theorem extraction_returns_library_values_witness:
  "metamodel demo_self = Some Map.empty \<and> chaosSI demo_self = Some Map.empty \<and>
   (fst (store_and_read zero_ot demo_self ''y'' 0 False) = Inr ([0], [0])) \<and>
   getSobolIndex zero_ot (FunctionalChaosSobolIndices 0) 0 = Inr 0"
proof -
  have h1: "metamodel demo_self = Some Map.empty" by (simp add: demo_self_def)
  have h2: "chaosSI demo_self = Some Map.empty" by (simp add: demo_self_def)
  have h3: "1 = length (input_names demo_self)" by (simp add: demo_self_def demo_new_def)
  have v: "getSobolIndex zero_ot (FunctionalChaosSobolIndices 0) 0 = Inr 0"
    "getSobolTotalIndex zero_ot (FunctionalChaosSobolIndices 0) 0 = Inr 0"
    by (simp_all add: zero_ot_def zero_index_def)
  from extraction_returns_library_values [OF h1 h2 h3 refl, of zero_ot "''y''" 0 False "[0]" "[0]"]
  have "fst (store_and_read zero_ot demo_self ''y'' 0 False) = Inr ([0], [0])"
    using v by simp
  with h1 h2 v show ?thesis by simp
qed

text \<open>
  The claim as stated, that a constant response is refused with
  \<^verbatim>\<open>DegenerateSurrogateError\<close>, fails whatever the library does at variance zero: where
  the library returns the index 0 the fit returns zero vectors, and where the library
  raises, its exception is what the fit raises.
\<close>

theorem constant_response_is_not_refused:
  "demo_variance demo_Y_const = 0 \<and>
   fst (u_computeChaosSensitivity zero_ot demo_self demo_X demo_Y_const None None False) =
     Inr ([0], [0]) \<and>
   fst (u_computeChaosSensitivity raising_ot demo_self demo_X demo_Y_const None None False) =
     Inl InvalidArgumentException \<and>
   fst (u_computeChaosSensitivity raising_ot demo_self demo_X demo_Y_const None None False) \<noteq>
     Inl (Exn ''DegenerateSurrogateError'')"
  by (simp add: demo_variance_const demo_Y_const_description demo_self_def demo_new_def
      demo_ot_def zero_ot_def raising_ot_def zero_index_def raising_index_def
      u_computeChaosSensitivity_def build_productBasis_def choose_strategy_def store_and_read_def read_indices_def
      Let_def)

section \<open>When every replicate is discarded\<close>

text \<open>
  Claim C4, as the code has it. When all \<open>B\<close> replicates of an output are discarded,
  the bootstrap has run all \<open>B\<close> fits and then computes the confidence interval from
  the two empty collections, with no check of its own. Where the library's quantile of an
  empty sample raises, as that of OpenTURNS does, and there is at least one input
  dimension, that exception is what the bootstrap of the output raises, whatever
  \<open>verbose\<close> and \<open>plot\<close> are, and what the whole
  \<^verbatim>\<open>computeBootstrapChaosSobolIndices\<close> raises when the output is the first one: the
  bootstrap fails after all \<open>B\<close> attempts and returns no interval, and the exception
  is not one of the code's own.
\<close>

theorem all_discarded_outcome:
  assumes "outputSample s oo = Some Y" and "0 < d"
    and "verbose = (case verbose_arg of None \<Rightarrow> True | Some b \<Rightarrow> b)"
    and "plot = (case plot_arg of None \<Rightarrow> True | Some b \<Rightarrow> b)"
    and "bootstrap_loop ot (nat B) X Y (unit_eps_of d) (Sample0 d, Sample0 d)
           (banner verbose oo s) = (Inr (fo_sample, to_sample), s1)"
    and "getSize fo_sample = 0"
    and "computeQuantile ot [] (1 / 40) = Inl e"
  shows "length (runs s1) = length (runs s) + nat B \<and>
     fst (bootstrap_output ot B verbose plot X d oo dicts s) = Inl e \<and>
     (output_names s = oo # rest \<and> X = inputSample s \<and> d = dimension X \<longrightarrow>
        fst (computeBootstrapChaosSobolIndices ot s B verbose_arg plot_arg) = Inl e)"
proof -
  let ?keep = "\<lambda>(a, b). inside_unit_eps d a \<and> inside_unit_eps d b"
  from bootstrap_loop_retained [OF assms(5)] obtain attempts new where
    r: "runs s1 = runs (banner verbose oo s) @ new" "length new = nat B"
    and fo: "rows fo_sample = rows (Sample0 d) @ map fst (filter ?keep attempts)"
    and to: "rows to_sample = rows (Sample0 d) @ map snd (filter ?keep attempts)"
    by blast
  from fo assms(6) have "filter ?keep attempts = []" by (simp add: getSize_def Sample0_def)
  with to assms(6) have rows: "rows fo_sample = []" "rows to_sample = []"
    by (simp_all add: getSize_def Sample0_def)
  from bootstrap_loop_shape [OF assms(5)] have
    "dimension fo_sample = d" "description fo_sample = default_description d"
    "dimension to_sample = d" "description to_sample = default_description d"
    by (simp_all add: Sample0_def)
  with rows have e: "fo_sample = Sample0 d" "to_sample = Sample0 d"
    by (simp_all add: empty_sample)
  have b: "runs (banner verbose oo s) = runs s"
    "outputSample (banner verbose oo s) oo = Some Y"
    using assms(1) by (simp_all add: banner_def)
  from r b have 1: "length (runs s1) = length (runs s) + nat B" by simp
  note loop = assms(5) [unfolded e]
  from assms(7) have ci: "computeSobolIndicesConfidenceInterval ot (Sample0 d) (Sample0 d) None =
      Inl e"
    by (simp add: ci_empty [OF assms(2)])
  have 2: "fst (bootstrap_output ot B verbose plot X d oo dicts' s) = Inl e" for dicts'
    using b(2) loop ci
    unfolding bootstrap_output_def banner_def [symmetric] unit_eps_of_def [symmetric] Let_def
    by simp
  have 3: "fst (computeBootstrapChaosSobolIndices ot s B verbose_arg plot_arg) = Inl e"
    if "output_names s = oo # rest" "X = inputSample s" "d = dimension X"
  proof -
    let ?d0 = "\<lparr>FO = Map.empty, TO = Map.empty, FOI = Map.empty, TOI = Map.empty\<rparr>"
    obtain s' where "bootstrap_output ot B verbose plot X d oo ?d0 s = (Inl e, s')"
      using 2 [of ?d0] by (cases "bootstrap_output ot B verbose plot X d oo ?d0 s") simp
    with that assms(3,4) show ?thesis
      by (simp add: computeBootstrapChaosSobolIndices_def Let_def)
  qed
  from 1 2 3 show ?thesis by blast
qed

theorem all_discarded_outcome_witness:
  "outputSample demo_self_out ''y'' = Some demo_Y_out \<and>
   getSize (Sample0 1) = 0 \<and>
   computeQuantile demo_ot [] (1 / 40) = Inl (Exn ''InternalException'') \<and>
   output_names demo_self_out = [''y''] \<and> demo_X = inputSample demo_self_out \<and>
   length (runs (snd (bootstrap_loop demo_ot 2 demo_X demo_Y_out (unit_eps_of 1)
                        (Sample0 1, Sample0 1) (banner True ''y'' demo_self_out)))) = 2 \<and>
   fst (computeBootstrapChaosSobolIndices demo_ot demo_self_out 2 None None) =
     Inl (Exn ''InternalException'')"
proof -
  have h1: "outputSample demo_self_out ''y'' = Some demo_Y_out"
    by (simp add: demo_self_out_def)
  have h2: "(0::nat) < 1" by simp
  have h3: "True = (case None of None \<Rightarrow> True | Some b \<Rightarrow> b)" by simp
  have h5: "bootstrap_loop demo_ot (nat 2) demo_X demo_Y_out (unit_eps_of 1)
      (Sample0 1, Sample0 1) (banner True ''y'' demo_self_out) =
   (Inr (Sample0 1, Sample0 1),
    snd (bootstrap_loop demo_ot 2 demo_X demo_Y_out (unit_eps_of 1) (Sample0 1, Sample0 1)
           (banner True ''y'' demo_self_out)))"
    using demo_loop_out by simp
  have h6: "getSize (Sample0 1) = 0" by (simp add: getSize_def Sample0_def)
  have h7: "computeQuantile demo_ot [] (1 / 40) = Inl (Exn ''InternalException'')"
    by (simp add: demo_ot_def demo_quantile_def)
  have o: "output_names demo_self_out = [''y'']" "demo_X = inputSample demo_self_out"
    "1 = dimension demo_X" "runs demo_self_out = []"
    by (simp_all add: demo_self_out_def demo_self_def demo_new_def demo_X_def)
  from all_discarded_outcome [OF h1 h2 h3 h3 h5 h6 h7, where rest = "[]"] o
  have "length (runs (snd (bootstrap_loop demo_ot 2 demo_X demo_Y_out (unit_eps_of 1)
                        (Sample0 1, Sample0 1) (banner True ''y'' demo_self_out)))) = 2"
    "fst (computeBootstrapChaosSobolIndices demo_ot demo_self_out 2 None None) =
     Inl (Exn ''InternalException'')"
    by simp_all
  with h1 h6 h7 o show ?thesis by simp
qed

text \<open>
  The claim as stated, that the bootstrap then fails with
  \<^verbatim>\<open>InsufficientValidReplicatesError\<close>, fails: on the small instance both replicates
  are discarded and the exception that surfaces is the one raised by the library's
  quantile.
\<close>

theorem all_discarded_raises_no_error_of_its_own:
  "fst (bootstrap_loop demo_ot 2 demo_X demo_Y_out (unit_eps_of 1) (Sample0 1, Sample0 1)
          (banner True ''y'' demo_self_out)) = Inr (Sample0 1, Sample0 1) \<and>
   fst (computeBootstrapChaosSobolIndices demo_ot demo_self_out 2 None None) =
     Inl (Exn ''InternalException'') \<and>
   fst (computeBootstrapChaosSobolIndices demo_ot demo_self_out 2 None None) \<noteq>
     Inl (Exn ''InsufficientValidReplicatesError'')"
  by (simp add: computeBootstrapChaosSobolIndices_def bootstrap_output_def banner_def
      numeral_2_eq_2 multiBootstrap_two demo_ot_def demo_selection_def demo_X_def
      demo_Y_out_def getSize_def select_def u_computeChaosSensitivity_def build_productBasis_def
      demo_self_def demo_new_def demo_self_out_def
      choose_strategy_def store_and_read_def read_indices_def demo_run_def demo_index_def
      unit_eps_of_def Sample0_def add_point_def Let_def
      computeSobolIndicesConfidenceInterval_def column_def demo_quantile_def)

end
